theory Spec2Isabelle
  imports Complex_Main "HOL-Library.Sublist"
begin

section \<open>Numbers of the source language\<close>

text \<open>
  The analyzer (src/analyzer.ts) computes on JavaScript numbers, the IEEE 754 doubles. A
  number is modelled as a finite value, one of the two infinities, or NaN; the finite
  values in use are the doubles, seen as reals. The sign of zero is not kept. Every
  arithmetic operation rounds its exact result to the nearest double, a tie going to the
  even one, and overflows to an infinity. What the source does with a non-finite operand,
  and what a division by zero gives, is written out.
\<close>

datatype number = Fin real | PosInf | NegInf | NaN

subsection \<open>Rounding to a double\<close>

text \<open>The nearest integer, a tie going to the even one.\<close>

definition rne :: "real \<Rightarrow> int" where
  "rne y = (if y - of_int \<lfloor>y\<rfloor> = 1 / 2 \<and> even \<lfloor>y\<rfloor> then \<lfloor>y\<rfloor> else \<lfloor>y + 1 / 2\<rfloor>)"

text \<open>
  The exponent of the binade of \<open>x\<close>: \<open>2 ^ expo x \<le> |x| < 2 ^ (expo x + 1)\<close>, and
  \<open>-1022\<close> for zero and in the subnormal range.
\<close>

definition expo :: "real \<Rightarrow> int" where
  "expo x = (if x = 0 then - 1022 else max \<lfloor>log 2 \<bar>x\<bar>\<rfloor> (- 1022))"

text \<open>The distance between neighbouring doubles in the binade of \<open>x\<close> (53 bits of precision).\<close>

definition ulp :: "real \<Rightarrow> real" where
  "ulp x = 2 powi (expo x - 52)"

text \<open>The double nearest to \<open>x\<close>, with the exponent unbounded above.\<close>

definition dbl :: "real \<Rightarrow> real" where
  "dbl x = sgn x * (of_int (rne (\<bar>x\<bar> / ulp x)) * ulp x)"

text \<open>The smallest positive double.\<close>

definition minSub :: real where
  "minSub = 2 powi (- 1074)"

text \<open>The rounded result of an operation: an infinity from \<open>2 ^ 1024\<close> on.\<close>

definition fl :: "real \<Rightarrow> number" where
  "fl x = (if 2 ^ 1024 \<le> dbl x then PosInf
           else if dbl x \<le> - (2 ^ 1024) then NegInf
           else Fin (dbl x))"

text \<open>The reals that are finite doubles: rounding leaves them as they are.\<close>

definition isDouble :: "real \<Rightarrow> bool" where
  "isDouble x = (fl x = Fin x)"

text \<open>A decimal literal of the source, such as \<open>0.05\<close>, denotes the double nearest to it.\<close>

definition lit :: "real \<Rightarrow> number" where
  "lit c = fl c"

subsection \<open>Arithmetic and comparisons\<close>

definition isFinite :: "number \<Rightarrow> bool" where
  "isFinite n = (case n of Fin x \<Rightarrow> True | _ \<Rightarrow> False)"

text \<open>The sign of a number as \<open>-1\<close>, \<open>0\<close> or \<open>1\<close>, and the infinity of a given sign.\<close>

fun nsign :: "number \<Rightarrow> real" where
  "nsign (Fin x) = sgn x"
| "nsign PosInf = 1"
| "nsign NegInf = - 1"
| "nsign NaN = 0"

definition infOfSign :: "real \<Rightarrow> number" where
  "infOfSign s = (if 0 < s then PosInf else if s < 0 then NegInf else NaN)"

fun nneg :: "number \<Rightarrow> number" where
  "nneg (Fin x) = Fin (- x)"
| "nneg PosInf = NegInf"
| "nneg NegInf = PosInf"
| "nneg NaN = NaN"

fun nadd :: "number \<Rightarrow> number \<Rightarrow> number" where
  "nadd (Fin x) (Fin y) = fl (x + y)"
| "nadd NaN b = NaN"
| "nadd a NaN = NaN"
| "nadd PosInf NegInf = NaN"
| "nadd NegInf PosInf = NaN"
| "nadd PosInf b = PosInf"
| "nadd NegInf b = NegInf"
| "nadd (Fin x) b = b"

definition nsub :: "number \<Rightarrow> number \<Rightarrow> number" where
  "nsub a b = nadd a (nneg b)"

fun nmul :: "number \<Rightarrow> number \<Rightarrow> number" where
  "nmul (Fin x) (Fin y) = fl (x * y)"
| "nmul NaN b = NaN"
| "nmul a NaN = NaN"
| "nmul a b = infOfSign (nsign a * nsign b)"

text \<open>
  Division: a finite value over zero is an infinity of the dividend's sign, and zero over
  zero is NaN; nothing is thrown.
\<close>

fun ndiv :: "number \<Rightarrow> number \<Rightarrow> number" where
  "ndiv (Fin x) (Fin y) = (if y = 0 then infOfSign x else fl (x / y))"
| "ndiv NaN b = NaN"
| "ndiv a NaN = NaN"
| "ndiv (Fin x) b = Fin 0"
| "ndiv a (Fin y) = infOfSign (nsign a * (if y < 0 then - 1 else 1))"
| "ndiv a b = NaN"

text \<open>Comparisons: every comparison with NaN is false.\<close>

fun nlt :: "number \<Rightarrow> number \<Rightarrow> bool" where
  "nlt (Fin x) (Fin y) = (x < y)"
| "nlt NaN b = False"
| "nlt a NaN = False"
| "nlt a PosInf = (a \<noteq> PosInf)"
| "nlt NegInf b = (b \<noteq> NegInf)"
| "nlt a b = False"

definition ngt :: "number \<Rightarrow> number \<Rightarrow> bool" where
  "ngt a b = nlt b a"

definition nge :: "number \<Rightarrow> number \<Rightarrow> bool" where
  "nge a b = (a \<noteq> NaN \<and> b \<noteq> NaN \<and> \<not> nlt a b)"

definition nle :: "number \<Rightarrow> number \<Rightarrow> bool" where
  "nle a b = (a \<noteq> NaN \<and> b \<noteq> NaN \<and> \<not> nlt b a)"

text \<open>
  \<open>Math.round\<close> rounds to the nearest integer, a tie going up; of a double this is a
  double again, so nothing is rounded a second time.
\<close>

definition roundR :: "real \<Rightarrow> real" where
  "roundR x = of_int \<lfloor>x + 1 / 2\<rfloor>"

fun mathRound :: "number \<Rightarrow> number" where
  "mathRound (Fin x) = Fin (roundR x)"
| "mathRound n = n"

fun mathAbs :: "number \<Rightarrow> number" where
  "mathAbs (Fin x) = Fin \<bar>x\<bar>"
| "mathAbs NaN = NaN"
| "mathAbs n = PosInf"

text \<open>\<open>Math.min\<close> and \<open>Math.max\<close> return NaN as soon as one argument is NaN.\<close>

definition mathMin :: "number \<Rightarrow> number \<Rightarrow> number" where
  "mathMin a b = (if a = NaN \<or> b = NaN then NaN else if nlt b a then b else a)"

definition mathMax :: "number \<Rightarrow> number \<Rightarrow> number" where
  "mathMax a b = (if a = NaN \<or> b = NaN then NaN else if nlt a b then b else a)"

section \<open>Utility\<close>

definition clamp :: "number \<Rightarrow> number \<Rightarrow> number \<Rightarrow> number" where
  "clamp n mn mx = mathMax mn (mathMin mx n)"

text \<open>
  \<open>safe(n, fallback)\<close>: the value when it is neither null, undefined nor non-finite, else
  the fallback. \<open>None\<close> is null or undefined. The result is finite, so it is a real. A
  field of a DataPoint holds a double, and \<open>safe\<close> returns it unchanged; should the field
  of the model hold another real, \<open>safe\<close> reads the double nearest to it, as the parser
  of the JSON document does, so that the operands of the analyzer's arithmetic are doubles
  in every case. A field that the analyzer reads without \<open>safe\<close> is only compared, or
  enters an operation whose result is rounded.
\<close>

definition safe :: "number option \<Rightarrow> real \<Rightarrow> real" where
  "safe n fallback =
     (case n of
        Some (Fin x) \<Rightarrow> (case fl x of Fin y \<Rightarrow> y | _ \<Rightarrow> fallback)
      | _ \<Rightarrow> fallback)"

section \<open>Data model (types.ts)\<close>

datatype RiskLevel = Critical | High | Medium | Low
datatype LiquidityDepth = Deep | ModerateDepth | Shallow | Dry
datatype HolderConcentration = Distributed | ModerateConc | Concentrated | WhaleDominated
datatype TrendDirection = Up | Down | Sideways | Reversal
datatype VolumeProfile = Surging | Rising | Stable | Declining | Dead
datatype Sentiment = Bullish | Bearish | Neutral

datatype RiskFactor =
    whale_dominance | creator_holds_majority | low_liquidity | no_liquidity_lock
  | high_concentration | rug_pattern | honeypot_risk | wash_trading
  | bonding_curve_risk | rapid_sell_off | no_social_presence | fake_volume
  | supply_manipulation | dev_wallet_active | copy_token | no_website
  | new_deployer | single_holder_majority | declining_holders | dead_volume
  | healthy_distribution | strong_community | organic_volume | locked_liquidity
  | verified_socials | active_development | growing_holders | smart_money_inflow

record Holder =
  address :: string
  amount :: number
  pct :: number

text \<open>
  The fields of \<open>DataPoint\<close> that the analyzer reads; it reads no other. A nullable or
  optional field is an option.
\<close>

record DataPoint =
  priceUsd :: "number option"
  priceChange1h :: "number option"
  priceChange24h :: "number option"
  marketCap :: "number option"
  liquidity :: "number option"
  volume24h :: "number option"
  buys24h :: "number option"
  sells24h :: "number option"
  holderCount :: "number option"
  bondingComplete :: bool
  bondingProgress :: "number option"
  website :: "string option"
  twitter :: "string option"
  telegram :: "string option"
  topHolders :: "Holder list option"
  top10Holding :: "number option"
  snipersHolding :: "number option"
  insidersHolding :: "number option"
  creatorHolding :: "number option"
  snapshotAt :: "number option"

record Snapshot =
  snap_priceUsd :: real
  snap_marketCap :: real
  snap_volume24h :: real
  snap_liquidity :: real
  snap_holderCount :: real
  snap_top10HolderPct :: number
  snap_buys24h :: real
  snap_sells24h :: real
  snap_bondingProgress :: real
  snap_snapshotAt :: number

record Quant =
  riskLevel :: RiskLevel
  riskFactors :: "RiskFactor list"
  buyPressure :: number
  volatilityScore :: number
  liquidityDepth :: LiquidityDepth
  holderConcentration :: HolderConcentration
  trendDirection :: TrendDirection
  volumeProfile :: VolumeProfile

text \<open>
  The summary is a string assembled from literal text and rendered numbers. How a number
  is rendered to digits depends on its binary representation, so the summary is kept as the
  sequence of its pieces, a rendered number standing as the call that renders it.
\<close>

datatype piece =
    Lit string
  | ToFixed number nat
  | ToStr number
  | Tag RiskFactor

record AnalysisResult =
  sentiment :: Sentiment
  score :: number
  summary :: "piece list"
  snapshot :: Snapshot
  quant :: Quant

text \<open>Reading a property of \<open>undefined\<close> throws a \<open>TypeError\<close>.\<close>

datatype error = TypeError

text \<open>Truthiness of a string (\<open>null\<close>, \<open>undefined\<close> and the empty string are falsy).\<close>

definition truthyStr :: "string option \<Rightarrow> bool" where
  "truthyStr s = (case s of None \<Rightarrow> False | Some t \<Rightarrow> t \<noteq> [])"

text \<open>Truthiness of a number (\<open>0\<close> and NaN are falsy).\<close>

definition truthyNum :: "number \<Rightarrow> bool" where
  "truthyNum v = (v \<noteq> NaN \<and> v \<noteq> Fin 0)"

text \<open>\<open>xs[i]\<close>: \<open>undefined\<close> out of range.\<close>

definition elemAt :: "'a list \<Rightarrow> nat \<Rightarrow> 'a option" where
  "elemAt xs i = (if i < length xs then Some (xs ! i) else None)"

text \<open>\<open>h.pct\<close>, which throws when \<open>h\<close> is \<open>undefined\<close>.\<close>

definition getPct :: "Holder option \<Rightarrow> error + number" where
  "getPct h = (case h of None \<Rightarrow> Inl TypeError | Some x \<Rightarrow> Inr (pct x))"

section \<open>The analyzer (analyzer.ts)\<close>

subsection \<open>Top-10 holder percentage\<close>

definition computeTop10Pct :: "DataPoint \<Rightarrow> number" where
  "computeTop10Pct dp =
     (case top10Holding dp of
        Some (Fin x) \<Rightarrow> Fin x
      | _ \<Rightarrow>
        (case topHolders dp of
           None \<Rightarrow> Fin 0
         | Some hs \<Rightarrow>
             if length hs > 0
             then foldl (\<lambda>sum h. nadd sum (Fin (safe (Some (pct h)) 0))) (Fin 0) (take 10 hs)
             else Fin 0))"

subsection \<open>Buy pressure\<close>

definition computeBuyPressure :: "DataPoint \<Rightarrow> number" where
  "computeBuyPressure dp =
     (let buys = safe (buys24h dp) 0;
          sells = safe (sells24h dp) 0
      in if nadd (Fin buys) (Fin sells) = Fin 0 then Fin 50
         else clamp (mathRound (nmul (ndiv (Fin buys)
                                        (nadd (nadd (Fin buys) (Fin sells)) (Fin 1)))
                                  (Fin 100)))
                (Fin 0) (Fin 100))"

subsection \<open>Volatility score\<close>

definition computeVolatilityScore :: "DataPoint \<Rightarrow> number" where
  "computeVolatilityScore dp =
     (let vol = safe (volume24h dp) 0;
          mcap = safe (marketCap dp) 1
      in if mcap \<le> 0 then Fin 50
         else let ratio = ndiv (Fin vol) (Fin mcap)
              in if nlt ratio (lit 0.05)
                 then clamp (mathRound (nadd (Fin 10) (nmul ratio (Fin 300))))
                        (Fin 10) (Fin 25)
                 else if nlt ratio (lit 0.2)
                 then clamp (mathRound (nadd (Fin 25) (nmul (nsub ratio (lit 0.05)) (Fin 166))))
                        (Fin 25) (Fin 50)
                 else if nlt ratio (lit 0.5)
                 then clamp (mathRound (nadd (Fin 50) (nmul (nsub ratio (lit 0.2)) (Fin 83))))
                        (Fin 50) (Fin 75)
                 else clamp (mathRound (nadd (Fin 75) (nmul (nsub ratio (lit 0.5)) (Fin 40))))
                        (Fin 75) (Fin 95))"

subsection \<open>Liquidity depth and holder concentration\<close>

definition computeLiquidityDepth :: "DataPoint \<Rightarrow> LiquidityDepth" where
  "computeLiquidityDepth dp =
     (let liq = safe (liquidity dp) 0
      in if liq \<ge> 1000000 then Deep
         else if liq \<ge> 250000 then ModerateDepth
         else if liq \<ge> 50000 then Shallow
         else Dry)"

definition computeHolderConcentration :: "number \<Rightarrow> HolderConcentration" where
  "computeHolderConcentration top10Pct =
     (if ngt top10Pct (Fin 80) then WhaleDominated
      else if ngt top10Pct (Fin 50) then Concentrated
      else if ngt top10Pct (Fin 20) then ModerateConc
      else Distributed)"

subsection \<open>Trend direction\<close>

definition computeTrendDirection :: "DataPoint \<Rightarrow> TrendDirection" where
  "computeTrendDirection dp =
     (let ch1h = safe (priceChange1h dp) 0;
          ch24h = safe (priceChange24h dp) 0
      in if priceChange1h dp \<noteq> None \<or> priceChange24h dp \<noteq> None
         then (if ch1h > 5 \<and> ch24h < - 10 then Reversal
               else if ch1h < - 5 \<and> ch24h > 10 then Reversal
               else let combined = nadd (nmul (Fin ch1h) (lit 0.6)) (nmul (Fin ch24h) (lit 0.4))
                    in if ngt combined (Fin 3) then Up
                       else if nlt combined (Fin (- 3)) then Down
                       else Sideways)
         else let buys = safe (buys24h dp) 0;
                  sells = safe (sells24h dp) 0
              in if nadd (Fin buys) (Fin sells) = Fin 0 then Sideways
                 else let ratio = ndiv (Fin buys) (nadd (Fin buys) (Fin sells))
                      in if ngt ratio (lit 0.6) then Up
                         else if nlt ratio (lit 0.4) then Down
                         else Sideways)"

subsection \<open>Volume profile\<close>

definition computeVolumeProfile :: "DataPoint \<Rightarrow> VolumeProfile" where
  "computeVolumeProfile dp =
     (let vol = safe (volume24h dp) 0;
          mcap = safe (marketCap dp) 1
      in if mcap \<le> 0 then Dead
         else let ratio = ndiv (Fin vol) (Fin mcap)
              in if ngt ratio (lit 0.5) then Surging
                 else if ngt ratio (lit 0.15) then Rising
                 else if ngt ratio (lit 0.03) then Stable
                 else if ngt ratio (lit 0.005) then Declining
                 else Dead)"

subsection \<open>Risk factors\<close>

text \<open>\<open>if (c) factors.push(t)\<close>.\<close>

definition pushIf :: "bool \<Rightarrow> 'a \<Rightarrow> 'a list \<Rightarrow> 'a list" where
  "pushIf c t fs = (if c then fs @ [t] else fs)"

text \<open>
  \<open>[...new Set(xs)]\<close>: a \<open>Set\<close> keeps its elements in insertion order, and adding an
  element it already holds changes nothing. \<open>newSet seen xs\<close> adds \<open>xs\<close> to the set
  holding \<open>seen\<close>.
\<close>

primrec newSet :: "'a list \<Rightarrow> 'a list \<Rightarrow> 'a list" where
  "newSet seen [] = seen"
| "newSet seen (x # xs) = newSet (if x \<in> set seen then seen else seen @ [x]) xs"

text \<open>\<open>x != null && x > c\<close> and \<open>x != null && x < c\<close> on a field read without \<open>safe\<close>.\<close>

definition presentGt :: "number option \<Rightarrow> real \<Rightarrow> bool" where
  "presentGt n c = (case n of None \<Rightarrow> False | Some v \<Rightarrow> ngt v (Fin c))"

definition presentLt :: "number option \<Rightarrow> real \<Rightarrow> bool" where
  "presentLt n c = (case n of None \<Rightarrow> False | Some v \<Rightarrow> nlt v (Fin c))"

text \<open>
  \<open>dp.topHolders && dp.topHolders.length > 0 && dp.topHolders[0]!.pct > 50\<close>: the only
  place of the analyzer that reads a property of a value that may be \<open>undefined\<close>.
\<close>

definition singleHolderCheck :: "DataPoint \<Rightarrow> error + bool" where
  "singleHolderCheck dp =
     (case topHolders dp of
        None \<Rightarrow> Inr False
      | Some hs \<Rightarrow>
          if length hs > 0
          then (case getPct (elemAt hs 0) of
                  Inl e \<Rightarrow> Inl e
                | Inr p \<Rightarrow> Inr (ngt p (Fin 50)))
          else Inr False)"

text \<open>
  A throw at the fifth check would abandon the list built so far, so the check is
  evaluated first and the pushes follow in the order of the source.
\<close>

definition computeRiskFactors :: "DataPoint \<Rightarrow> number \<Rightarrow> error + RiskFactor list" where
  "computeRiskFactors dp top10Pct =
     (case singleHolderCheck dp of
        Inl e \<Rightarrow> Inl e
      | Inr single \<Rightarrow>
          Inr (let factors = [];
                   factors = pushIf (safe (liquidity dp) 0 < 50000) low_liquidity factors;
                   factors = pushIf (ngt top10Pct (Fin 80)) whale_dominance factors;
                   factors = pushIf (ngt top10Pct (Fin 50) \<and> nle top10Pct (Fin 80))
                               high_concentration factors;
                   factors = pushIf (presentGt (creatorHolding dp) 30) creator_holds_majority factors;
                   factors = pushIf single single_holder_majority factors;
                   factors = pushIf (\<not> bondingComplete dp \<and> safe (bondingProgress dp) 0 < 30)
                               bonding_curve_risk factors;
                   factors = pushIf (\<not> truthyStr (website dp) \<and> \<not> truthyStr (twitter dp)
                                       \<and> \<not> truthyStr (telegram dp))
                               no_social_presence factors;
                   factors = pushIf (\<not> truthyStr (website dp)) no_website factors;
                   factors = pushIf (presentGt (snipersHolding dp) 20) dev_wallet_active factors;
                   factors = pushIf (presentGt (insidersHolding dp) 15) wash_trading factors;
                   buys = safe (buys24h dp) 0;
                   sells = safe (sells24h dp) 0;
                   factors = pushIf (ngt (Fin sells) (nmul (Fin buys) (Fin 2)) \<and> sells > 20)
                               rapid_sell_off factors;
                   factors = pushIf (safe (volume24h dp) 0 < 1000 \<and> safe (holderCount dp) 0 > 100)
                               dead_volume factors;
                   factors = pushIf (presentLt (priceChange24h dp) (- 20)) declining_holders factors;
                   factors = pushIf (nle top10Pct (Fin 30) \<and> safe (holderCount dp) 0 > 200)
                               healthy_distribution factors;
                   factors = pushIf (truthyStr (twitter dp) \<or> truthyStr (telegram dp))
                               verified_socials factors;
                   factors = pushIf (safe (volume24h dp) 0 > 50000
                                       \<and> ngt (Fin buys) (nmul (Fin sells) (lit 0.8)))
                               organic_volume factors;
                   factors = pushIf (safe (holderCount dp) 0 > 500) growing_holders factors;
                   factors = pushIf (truthyStr (twitter dp)) strong_community factors;
                   deduped = newSet [] factors;
                   deduped = (if length deduped = 0
                              then deduped @ [if safe (liquidity dp) 0 \<ge> 50000
                                              then organic_volume else low_liquidity]
                              else deduped)
               in take 8 deduped))"

subsection \<open>Risk level\<close>

definition negativeFactors :: "RiskFactor list" where
  "negativeFactors =
     [whale_dominance, creator_holds_majority, low_liquidity, no_liquidity_lock,
      high_concentration, rug_pattern, honeypot_risk, wash_trading,
      bonding_curve_risk, rapid_sell_off, no_social_presence, fake_volume,
      supply_manipulation, dev_wallet_active, copy_token, no_website,
      new_deployer, single_holder_majority, declining_holders, dead_volume]"

definition criticalFactors :: "RiskFactor list" where
  "criticalFactors = [rug_pattern, honeypot_risk, single_holder_majority]"

definition computeRiskLevel :: "RiskFactor list \<Rightarrow> number \<Rightarrow> RiskLevel" where
  "computeRiskLevel factors buyPressure' =
     (let negCount = length (filter (\<lambda>f. f \<in> set negativeFactors) factors);
          hasCritical = list_ex (\<lambda>f. f \<in> set criticalFactors) factors
      in if hasCritical \<or> negCount \<ge> 5 then Critical
         else if negCount \<ge> 3 \<or> nlt buyPressure' (Fin 25) then High
         else if negCount \<ge> 1 then Medium
         else Low)"

subsection \<open>Composite score\<close>

definition computeScore ::
  "number \<Rightarrow> number \<Rightarrow> RiskLevel \<Rightarrow> TrendDirection \<Rightarrow> LiquidityDepth \<Rightarrow> number" where
  "computeScore buyPressure' volatilityScore' riskLevel' trendDirection' liquidityDepth' =
     (let score' = Fin 50;
          score' = nadd score' (nmul (nsub buyPressure' (Fin 50)) (lit 0.5));
          score' = (if trendDirection' = Up then nadd score' (Fin 10)
                   else if trendDirection' = Down then nsub score' (Fin 10)
                   else if trendDirection' = Reversal then nsub score' (Fin 5)
                   else score');
          score' = (if ngt volatilityScore' (Fin 70) then nsub score' (Fin 5) else score');
          score' = (if riskLevel' = Critical then nsub score' (Fin 20)
                   else if riskLevel' = High then nsub score' (Fin 10)
                   else if riskLevel' = Low then nadd score' (Fin 10)
                   else score');
          score' = (if liquidityDepth' = Deep then nadd score' (Fin 5)
                   else if liquidityDepth' = Dry then nsub score' (Fin 10)
                   else score')
      in clamp (mathRound score') (Fin 0) (Fin 100))"

subsection \<open>Sentiment\<close>

definition computeSentiment :: "number \<Rightarrow> RiskLevel \<Rightarrow> Sentiment" where
  "computeSentiment score' riskLevel' =
     (if riskLevel' = Critical \<or> nlt score' (Fin 35) then Bearish
      else if ngt score' (Fin 65) \<and> riskLevel' \<noteq> High then Bullish
      else Neutral)"

subsection \<open>Summary text\<close>

definition formatCompact :: "real \<Rightarrow> piece list" where
  "formatCompact n =
     (if n \<ge> 1000000000 then [ToFixed (ndiv (Fin n) (Fin 1000000000)) 1, Lit ''B'']
      else if n \<ge> 1000000 then [ToFixed (ndiv (Fin n) (Fin 1000000)) 1, Lit ''M'']
      else if n \<ge> 1000 then [ToFixed (ndiv (Fin n) (Fin 1000)) 1, Lit ''K'']
      else [ToFixed (Fin n) 0])"

text \<open>\<open>parts.join(sep)\<close>.\<close>

fun joinWith :: "piece list \<Rightarrow> piece list list \<Rightarrow> piece list" where
  "joinWith sep [] = []"
| "joinWith sep [p] = p"
| "joinWith sep (p # ps) = p @ sep @ joinWith sep ps"

definition positiveFactors :: "RiskFactor list" where
  "positiveFactors =
     [healthy_distribution, strong_community, organic_volume,
      locked_liquidity, verified_socials, active_development,
      growing_holders, smart_money_inflow]"

fun holderConcentrationStr :: "HolderConcentration \<Rightarrow> string" where
  "holderConcentrationStr Distributed = ''distributed''"
| "holderConcentrationStr ModerateConc = ''moderate''"
| "holderConcentrationStr Concentrated = ''concentrated''"
| "holderConcentrationStr WhaleDominated = ''whale_dominated''"

fun liquidityDepthStr :: "LiquidityDepth \<Rightarrow> string" where
  "liquidityDepthStr Deep = ''deep''"
| "liquidityDepthStr ModerateDepth = ''moderate''"
| "liquidityDepthStr Shallow = ''shallow''"
| "liquidityDepthStr Dry = ''dry''"

text \<open>\<open>sentiment.toUpperCase()\<close>.\<close>

fun sentimentUpper :: "Sentiment \<Rightarrow> string" where
  "sentimentUpper Bullish = ''BULLISH''"
| "sentimentUpper Bearish = ''BEARISH''"
| "sentimentUpper Neutral = ''NEUTRAL''"

definition generateSummary ::
  "DataPoint \<Rightarrow> Sentiment \<Rightarrow> number \<Rightarrow> Quant \<Rightarrow> number \<Rightarrow> piece list" where
  "generateSummary dp sentiment' score' quant' top10Pct =
     (let parts = [];
          parts = (case priceChange1h dp of
                     None \<Rightarrow> parts
                   | Some ch \<Rightarrow>
                       parts @ [[Lit ''Price '', Lit (if nge ch (Fin 0) then ''up'' else ''down''),
                                 Lit '' '', ToFixed (mathAbs ch) 1, Lit ''% in the last hour'']]);
          mcap = safe (marketCap dp) 0;
          vol = safe (volume24h dp) 0;
          parts = (if mcap > 0
                   then parts @ [[Lit ''mcap $''] @ formatCompact mcap @ [Lit '' with $'']
                                 @ formatCompact vol @ [Lit '' 24h volume'']]
                   else parts);
          parts = parts @ [[Lit ''top 10 wallets hold '', ToFixed top10Pct 1, Lit ''% ('',
                            Lit (holderConcentrationStr (holderConcentration quant')), Lit '')'']];
          parts = parts @ [[Lit ''liquidity '', Lit (liquidityDepthStr (liquidityDepth quant')),
                            Lit '' at $''] @ formatCompact (safe (liquidity dp) 0)];
          buys = safe (buys24h dp) 0;
          sells = safe (sells24h dp) 0;
          parts = parts @ [[ToStr (Fin buys), Lit '' buys vs '', ToStr (Fin sells),
                            Lit '' sells ('', ToStr (buyPressure quant'), Lit ''% buy pressure)'']];
          negFactors = filter (\<lambda>f. f \<notin> set positiveFactors) (riskFactors quant');
          parts = (if length negFactors > 0
                   then parts @ [[Lit ''risk factors: '']
                                 @ joinWith [Lit '', ''] (map (\<lambda>f. [Tag f]) negFactors)]
                   else parts);
          parts = (if \<not> bondingComplete dp
                   then parts @ [[Lit ''bonding curve '',
                                  ToFixed (Fin (safe (bondingProgress dp) 0)) 0,
                                  Lit ''% complete'']]
                   else parts)
      in [Lit (sentimentUpper sentiment'), Lit '' ('', ToStr score', Lit ''/100). '']
         @ joinWith [Lit ''. ''] parts @ [Lit ''.''])"

subsection \<open>Main export\<close>

text \<open>
  \<open>analyze now dp\<close> is \<open>analyze(dp)\<close> run when \<open>Date.now()\<close> reads \<open>now\<close>
  (milliseconds since the epoch); the two reads of the clock in the snapshot give the same
  value.
\<close>

definition analyze :: "real \<Rightarrow> DataPoint \<Rightarrow> error + AnalysisResult" where
  "analyze now dp =
     (let top10Pct = computeTop10Pct dp;
          snapshot' =
            \<lparr> snap_priceUsd = safe (priceUsd dp) 0,
              snap_marketCap = safe (marketCap dp) 0,
              snap_volume24h = safe (volume24h dp) 0,
              snap_liquidity = safe (liquidity dp) 0,
              snap_holderCount = safe (holderCount dp) 0,
              snap_top10HolderPct = ndiv (mathRound (nmul top10Pct (Fin 10))) (Fin 10),
              snap_buys24h = safe (buys24h dp) 0,
              snap_sells24h = safe (sells24h dp) 0,
              snap_bondingProgress = safe (bondingProgress dp) 0,
              snap_snapshotAt =
                (case snapshotAt dp of
                   None \<Rightarrow> Fin now
                 | Some t \<Rightarrow>
                     if truthyNum t \<and> nlt (nsub (Fin now) t) (Fin 300000) then t else Fin now) \<rparr>;
          buyPressure' = computeBuyPressure dp;
          volatilityScore' = computeVolatilityScore dp;
          liquidityDepth' = computeLiquidityDepth dp;
          holderConcentration' = computeHolderConcentration top10Pct;
          trendDirection' = computeTrendDirection dp;
          volumeProfile' = computeVolumeProfile dp
      in case computeRiskFactors dp top10Pct of
           Inl e \<Rightarrow> Inl e
         | Inr riskFactors' \<Rightarrow>
             (let riskLevel' = computeRiskLevel riskFactors' buyPressure';
                  quant' =
                    \<lparr> riskLevel = riskLevel',
                      riskFactors = riskFactors',
                      buyPressure = buyPressure',
                      volatilityScore = volatilityScore',
                      liquidityDepth = liquidityDepth',
                      holderConcentration = holderConcentration',
                      trendDirection = trendDirection',
                      volumeProfile = volumeProfile' \<rparr>;
                  score' = computeScore buyPressure' volatilityScore' riskLevel' trendDirection'
                            liquidityDepth';
                  sentiment' = computeSentiment score' riskLevel';
                  summary' = generateSummary dp sentiment' score' quant' top10Pct
              in Inr \<lparr> sentiment = sentiment', score = score', summary = summary',
                       snapshot = snapshot', quant = quant' \<rparr>))"

section \<open>The specification's reading of the labels\<close>

text \<open>
  The definitions of this section are written from the wording of the specification, to be
  compared with the functions of the analyzer above.
\<close>

subsection \<open>The risk-factor checklist\<close>

text \<open>The tags of the entries whose condition holds, in the order of the table.\<close>

fun collect :: "(bool \<times> 'a) list \<Rightarrow> 'a list" where
  "collect [] = []"
| "collect ((c, t) # xs) = (if c then t # collect xs else collect xs)"

text \<open>``Top holder entry exists and its pct > 50''.\<close>

definition firstHolderOver50 :: "DataPoint \<Rightarrow> bool" where
  "firstHolderOver50 dp =
     (case topHolders dp of
        None \<Rightarrow> False
      | Some [] \<Rightarrow> False
      | Some (h # hs) \<Rightarrow> ngt (pct h) (Fin 50))"

text \<open>The table of conditions and tags, row by row.\<close>

definition checklistSpec :: "DataPoint \<Rightarrow> number \<Rightarrow> (bool \<times> RiskFactor) list" where
  "checklistSpec dp top10Pct =
     [(safe (liquidity dp) 0 < 50000, low_liquidity),
      (ngt top10Pct (Fin 80), whale_dominance),
      (ngt top10Pct (Fin 50) \<and> nle top10Pct (Fin 80), high_concentration),
      (presentGt (creatorHolding dp) 30, creator_holds_majority),
      (firstHolderOver50 dp, single_holder_majority),
      (\<not> bondingComplete dp \<and> safe (bondingProgress dp) 0 < 30, bonding_curve_risk),
      (\<not> truthyStr (website dp) \<and> \<not> truthyStr (twitter dp) \<and> \<not> truthyStr (telegram dp),
         no_social_presence),
      (\<not> truthyStr (website dp), no_website),
      (presentGt (snipersHolding dp) 20, dev_wallet_active),
      (presentGt (insidersHolding dp) 15, wash_trading),
      (ngt (Fin (safe (sells24h dp) 0)) (nmul (Fin (safe (buys24h dp) 0)) (Fin 2))
         \<and> safe (sells24h dp) 0 > 20, rapid_sell_off),
      (safe (volume24h dp) 0 < 1000 \<and> safe (holderCount dp) 0 > 100, dead_volume),
      (presentLt (priceChange24h dp) (- 20), declining_holders),
      (nle top10Pct (Fin 30) \<and> safe (holderCount dp) 0 > 200, healthy_distribution),
      (truthyStr (twitter dp) \<or> truthyStr (telegram dp), verified_socials),
      (safe (volume24h dp) 0 > 50000
         \<and> ngt (Fin (safe (buys24h dp) 0)) (nmul (Fin (safe (sells24h dp) 0)) (lit 0.8)),
         organic_volume),
      (safe (holderCount dp) 0 > 500, growing_holders),
      (truthyStr (twitter dp), strong_community)]"

text \<open>The eighteen tags of the table, in its order.\<close>

definition checklistTags :: "RiskFactor list" where
  "checklistTags =
     [low_liquidity, whale_dominance, high_concentration, creator_holds_majority,
      single_holder_majority, bonding_curve_risk, no_social_presence, no_website,
      dev_wallet_active, wash_trading, rapid_sell_off, dead_volume, declining_holders,
      healthy_distribution, verified_socials, organic_volume, growing_holders,
      strong_community]"


definition firedTags :: "DataPoint \<Rightarrow> RiskFactor list" where
  "firedTags dp = collect (checklistSpec dp (computeTop10Pct dp))"

definition fallbackTag :: "DataPoint \<Rightarrow> RiskFactor" where
  "fallbackTag dp = (if safe (liquidity dp) 0 \<ge> 50000 then organic_volume else low_liquidity)"

text \<open>``If the resulting list is empty, inject one fallback tag; truncate to the first 8.''\<close>

definition riskList :: "DataPoint \<Rightarrow> RiskFactor list" where
  "riskList dp = take 8 (if firedTags dp = [] then [fallbackTag dp] else firedTags dp)"

subsection \<open>Risk level\<close>

definition positiveTags :: "RiskFactor set" where
  "positiveTags = {healthy_distribution, strong_community, organic_volume, locked_liquidity,
                   verified_socials, active_development, growing_holders, smart_money_inflow}"

definition criticalTags :: "RiskFactor set" where
  "criticalTags = {rug_pattern, honeypot_risk, single_holder_majority}"

text \<open>
  The negative tags are all tags but the eight positive ones; the decision takes the first
  rule that matches.
\<close>

definition riskLevelSpec :: "RiskFactor list \<Rightarrow> number \<Rightarrow> RiskLevel" where
  "riskLevelSpec fs bp =
     (let negCount = length (filter (\<lambda>f. f \<notin> positiveTags) fs)
      in if set fs \<inter> criticalTags \<noteq> {} \<or> negCount \<ge> 5 then Critical
         else if negCount \<ge> 3 \<or> nlt bp (Fin 25) then High
         else if negCount \<ge> 1 then Medium
         else Low)"

subsection \<open>Scores\<close>

text \<open>A number that is an integer between two bounds.\<close>

definition isIntIn :: "int \<Rightarrow> int \<Rightarrow> number \<Rightarrow> bool" where
  "isIntIn lo hi n =
     (case n of Fin x \<Rightarrow> x = of_int \<lfloor>x\<rfloor> \<and> of_int lo \<le> x \<and> x \<le> of_int hi | _ \<Rightarrow> False)"

text \<open>The composite score as a formula over the reals.\<close>

definition scoreSpec ::
  "real \<Rightarrow> real \<Rightarrow> RiskLevel \<Rightarrow> TrendDirection \<Rightarrow> LiquidityDepth \<Rightarrow> real" where
  "scoreSpec bp v rl td ld =
     max 0 (min 100 (roundR (50 + (bp - 50) * 0.5
       + (case td of Up \<Rightarrow> 10 | Down \<Rightarrow> - 10 | Reversal \<Rightarrow> - 5 | Sideways \<Rightarrow> 0)
       + (if v > 70 then - 5 else 0)
       + (case rl of Critical \<Rightarrow> - 20 | High \<Rightarrow> - 10 | Low \<Rightarrow> 10 | Medium \<Rightarrow> 0)
       + (case ld of Deep \<Rightarrow> 5 | Dry \<Rightarrow> - 10 | ModerateDepth \<Rightarrow> 0 | Shallow \<Rightarrow> 0))))"

text \<open>
  Buy pressure: \<open>round(buys / (buys + sells + 1) * 100)\<close> clamped to \<open>[0, 100]\<close>, and
  exactly 50 if \<open>buys + sells = 0\<close>, each operation being one of doubles.
\<close>

definition buyPressureSpec :: "real \<Rightarrow> real \<Rightarrow> number" where
  "buyPressureSpec buys sells =
     (if nadd (Fin buys) (Fin sells) = Fin 0 then Fin 50
      else clamp (mathRound (nmul (ndiv (Fin buys) (nadd (nadd (Fin buys) (Fin sells)) (Fin 1)))
                               (Fin 100)))
             (Fin 0) (Fin 100))"

text \<open>The four bands that map the volume to market-cap ratio to a score.\<close>

definition volatilityBands :: "number \<Rightarrow> number" where
  "volatilityBands ratio =
     (if nlt ratio (lit 0.05)
      then clamp (mathRound (nadd (Fin 10) (nmul ratio (Fin 300)))) (Fin 10) (Fin 25)
      else if nlt ratio (lit 0.2)
      then clamp (mathRound (nadd (Fin 25) (nmul (nsub ratio (lit 0.05)) (Fin 166))))
             (Fin 25) (Fin 50)
      else if nlt ratio (lit 0.5)
      then clamp (mathRound (nadd (Fin 50) (nmul (nsub ratio (lit 0.2)) (Fin 83))))
             (Fin 50) (Fin 75)
      else clamp (mathRound (nadd (Fin 75) (nmul (nsub ratio (lit 0.5)) (Fin 40))))
             (Fin 75) (Fin 95))"

text \<open>
  The volatility score with the market cap floored at 1 before dividing
  (denominator \<open>max(marketCap, 1)\<close>), and 50 for a market cap that is not positive.
\<close>

definition volatilityFloored :: "DataPoint \<Rightarrow> number" where
  "volatilityFloored dp =
     (let vol = safe (volume24h dp) 0;
          mcap = safe (marketCap dp) 1
      in if mcap \<le> 0 then Fin 50
         else volatilityBands (ndiv (Fin vol) (Fin (max mcap 1))))"

subsection \<open>Defaults\<close>

text \<open>A field that \<open>safe\<close> replaces by its default: null, missing, or not finite.\<close>

definition unusable :: "number option \<Rightarrow> bool" where
  "unusable n = (n = None \<or> n = Some NaN \<or> n = Some PosInf \<or> n = Some NegInf)"

section \<open>Example inputs\<close>

text \<open>A DataPoint with every nullable field null and every optional field missing.\<close>

definition dpNull :: DataPoint where
  "dpNull = \<lparr> priceUsd = None, priceChange1h = None, priceChange24h = None, marketCap = None,
      liquidity = None, volume24h = None, buys24h = None, sells24h = None, holderCount = None,
      bondingComplete = False, bondingProgress = None, website = None, twitter = None,
      telegram = None, topHolders = None, top10Holding = None, snipersHolding = None,
      insidersHolding = None, creatorHolding = None, snapshotAt = None \<rparr>"

text \<open>No price change on record, and no buy and no sell in 24 hours.\<close>

definition dpZeroCounts :: DataPoint where
  "dpZeroCounts = dpNull \<lparr> buys24h := Some (Fin 0), sells24h := Some (Fin 0) \<rparr>"

text \<open>A sell count of \<open>-1\<close> with no buys: the buy-pressure denominator is zero.\<close>

definition dpNegSells :: DataPoint where
  "dpNegSells = dpNull \<lparr> buys24h := Some (Fin 0), sells24h := Some (Fin (- 1)) \<rparr>"

text \<open>A market cap of half a dollar with the same 24h volume.\<close>

definition dpSmallCap :: DataPoint where
  "dpSmallCap = dpNull \<lparr> marketCap := Some (Fin 0.5), volume24h := Some (Fin 0.5) \<rparr>"

text \<open>A capture timestamp of \<open>0\<close>.\<close>

definition dpZeroStamp :: DataPoint where
  "dpZeroStamp = dpNull \<lparr> snapshotAt := Some (Fin 0) \<rparr>"

text \<open>The example of the specification's testable properties.\<close>

definition dpExample :: DataPoint where
  "dpExample = dpNull \<lparr> buys24h := Some (Fin 80), sells24h := Some (Fin 20),
      liquidity := Some (Fin 2000000), marketCap := Some (Fin 5000000),
      volume24h := Some (Fin 1000000), top10Holding := Some (Fin 15),
      holderCount := Some (Fin 600), twitter := Some ''x'', priceChange1h := Some (Fin 4),
      priceChange24h := Some (Fin 8), bondingComplete := True \<rparr>"

text \<open>A graduated token with a website and nothing else on record: no row of the table fires.\<close>

definition dpQuiet :: DataPoint where
  "dpQuiet = dpNull \<lparr> liquidity := Some (Fin 60000), bondingComplete := True,
      website := Some ''w'' \<rparr>"

text \<open>Strong buying into deep liquidity, with three negative tags.\<close>

definition dpHotRisky :: DataPoint where
  "dpHotRisky = dpNull \<lparr> liquidity := Some (Fin 2000000), buys24h := Some (Fin 3),
      priceChange1h := Some (Fin 10) \<rparr>"

text \<open>A first holder with 60 percent of the supply.\<close>

definition dpWhale :: DataPoint where
  "dpWhale = dpNull \<lparr> topHolders := Some [\<lparr> address = ''a'', amount = Fin 1, pct = Fin 60 \<rparr>] \<rparr>"

text \<open>A capture timestamp of 2025-11-01T12:26:40Z.\<close>

definition dpFresh :: DataPoint where
  "dpFresh = dpNull \<lparr> snapshotAt := Some (Fin 1762000000000) \<rparr>"

text \<open>A graduated token held by insiders and being sold off.\<close>

definition dpDistressed :: DataPoint where
  "dpDistressed = dpNull \<lparr> liquidity := Some (Fin 60000), bondingComplete := True,
      website := Some ''w'', top10Holding := Some (Fin 90), creatorHolding := Some (Fin 40),
      topHolders := Some [\<lparr> address = ''a'', amount = Fin 1, pct = Fin 60 \<rparr>],
      snipersHolding := Some (Fin 30), insidersHolding := Some (Fin 20),
      sells24h := Some (Fin 30), holderCount := Some (Fin 150),
      priceChange24h := Some (Fin (- 30)) \<rparr>"

text \<open>23 buys and 16 sells: \<open>(23 / 40) * 100\<close> is \<open>57.49999999999999\<close> in doubles.\<close>

definition dpTie :: DataPoint where
  "dpTie = dpNull \<lparr> buys24h := Some (Fin 23), sells24h := Some (Fin 16) \<rparr>"

text \<open>A 24h volume of 4.1 on a market cap of 98.4, a ratio of one in twenty-four.\<close>

definition dpRatio :: DataPoint where
  "dpRatio = dpNull \<lparr> volume24h := Some (Fin 4.1), marketCap := Some (Fin 98.4) \<rparr>"

section \<open>Lemmas on rounding\<close>

lemma rne_of_int: "rne (of_int n) = n"
  by (simp add: rne_def)

lemma rne_nonneg: "0 \<le> y \<Longrightarrow> 0 \<le> rne y"
  by (simp add: rne_def)

lemma rne_le_round: "rne y \<le> \<lfloor>y + 1 / 2\<rfloor>"
proof -
  have "\<lfloor>y\<rfloor> \<le> \<lfloor>y + 1 / 2\<rfloor>"
    by (rule floor_mono) simp
  then show ?thesis
    by (simp add: rne_def)
qed

lemma rne_err: "\<bar>of_int (rne y) - y\<bar> \<le> 1 / 2"
proof -
  have "of_int \<lfloor>y + 1 / 2\<rfloor> \<le> y + 1 / 2" "y + 1 / 2 < of_int \<lfloor>y + 1 / 2\<rfloor> + 1"
    by linarith+
  then have "\<bar>of_int \<lfloor>y + 1 / 2\<rfloor> - y\<bar> \<le> 1 / 2"
    by linarith
  moreover have "y - of_int \<lfloor>y\<rfloor> = 1 / 2 \<Longrightarrow> \<bar>of_int \<lfloor>y\<rfloor> - y\<bar> \<le> 1 / 2"
    by linarith
  ultimately show ?thesis
    by (simp add: rne_def)
qed

lemma rne_mono:
  assumes "a \<le> b"
  shows "rne a \<le> rne b"
proof (cases "b - of_int \<lfloor>b\<rfloor> = 1 / 2 \<and> even \<lfloor>b\<rfloor>")
  case False
  then have "rne b = \<lfloor>b + 1 / 2\<rfloor>"
    unfolding rne_def by (simp only: if_False)
  moreover have "rne a \<le> \<lfloor>a + 1 / 2\<rfloor>"
    by (rule rne_le_round)
  moreover have "\<lfloor>a + 1 / 2\<rfloor> \<le> \<lfloor>b + 1 / 2\<rfloor>"
    using assms by (simp add: floor_mono)
  ultimately show ?thesis by linarith
next
  case True
  then have b: "rne b = \<lfloor>b\<rfloor>"
    unfolding rne_def by simp
  have bf: "b = of_int \<lfloor>b\<rfloor> + 1 / 2"
    using True by linarith
  show ?thesis
  proof (cases "a = b")
    case True
    then show ?thesis by simp
  next
    case False
    then have "a + 1 / 2 < of_int \<lfloor>b\<rfloor> + 1"
      using assms bf by linarith
    then have "\<lfloor>a + 1 / 2\<rfloor> \<le> \<lfloor>b\<rfloor>"
      using floor_less_iff [of "a + 1 / 2" "\<lfloor>b\<rfloor> + 1"] by simp
    moreover have "rne a \<le> \<lfloor>a + 1 / 2\<rfloor>"
      by (rule rne_le_round)
    ultimately show ?thesis
      using b by linarith
  qed
qed

lemma ulp_pos: "0 < ulp x"
  by (simp add: ulp_def)

lemma expo_ge: "- 1022 \<le> expo x"
  by (simp add: expo_def)

lemma floor_log2_bounds:
  assumes "x \<noteq> 0"
  shows "2 powi \<lfloor>log 2 \<bar>x\<bar>\<rfloor> \<le> \<bar>x\<bar>" and "\<bar>x\<bar> < 2 powi (\<lfloor>log 2 \<bar>x\<bar>\<rfloor> + 1)"
proof -
  have p: "0 < \<bar>x\<bar>" using assms by simp
  have "2 powr (of_int \<lfloor>log 2 \<bar>x\<bar>\<rfloor>) \<le> \<bar>x\<bar> \<and> \<bar>x\<bar> < 2 powr (of_int (\<lfloor>log 2 \<bar>x\<bar>\<rfloor> + 1))"
    using floor_log_eq_powr_iff [OF p, of 2 "\<lfloor>log 2 \<bar>x\<bar>\<rfloor>"] by simp
  then show "2 powi \<lfloor>log 2 \<bar>x\<bar>\<rfloor> \<le> \<bar>x\<bar>" and "\<bar>x\<bar> < 2 powi (\<lfloor>log 2 \<bar>x\<bar>\<rfloor> + 1)"
    by (simp_all add: powr_real_of_int' del: of_int_add)
qed

lemma floor_log2_eq:
  assumes "2 powi k \<le> \<bar>x\<bar>" and "\<bar>x\<bar> < 2 powi (k + 1)"
  shows "\<lfloor>log 2 \<bar>x\<bar>\<rfloor> = k"
proof -
  have p: "0 < \<bar>x\<bar>"
    using assms(1) by (smt (verit) zero_less_power_int)
  have "2 powr (of_int k) \<le> \<bar>x\<bar> \<and> \<bar>x\<bar> < 2 powr (of_int (k + 1))"
    using assms by (simp add: powr_real_of_int' del: of_int_add)
  then show ?thesis
    using floor_log_eq_powr_iff [OF p, of 2 k] by simp
qed

lemma expo_eq:
  assumes "2 powi k \<le> \<bar>x\<bar>" and "\<bar>x\<bar> < 2 powi (k + 1)" and "- 1022 \<le> k"
  shows "expo x = k"
proof -
  have "x \<noteq> 0"
    using assms(1) by (smt (verit) zero_less_power_int abs_zero)
  then show ?thesis
    using floor_log2_eq [OF assms(1,2)] assms(3) by (simp add: expo_def)
qed

lemma expo_upper: "\<bar>x\<bar> < 2 powi (expo x + 1)"
proof (cases "x = 0")
  case True
  then show ?thesis by simp
next
  case False
  have "\<bar>x\<bar> < 2 powi (\<lfloor>log 2 \<bar>x\<bar>\<rfloor> + 1)"
    using floor_log2_bounds(2) [OF False] .
  also have "\<dots> \<le> 2 powi (expo x + 1)"
    using False by (intro power_int_increasing) (simp_all add: expo_def)
  finally show ?thesis .
qed

lemma expo_lower: "- 1022 < expo x \<Longrightarrow> 2 powi (expo x) \<le> \<bar>x\<bar>"
proof -
  assume a: "- 1022 < expo x"
  then have e: "expo x = \<lfloor>log 2 \<bar>x\<bar>\<rfloor>"
    by (auto simp: expo_def max_def split: if_splits)
  have "x \<noteq> 0"
    using a by (auto simp: expo_def split: if_splits)
  then show ?thesis
    using floor_log2_bounds(1) e by simp
qed



lemma p2_add: "(2::real) powi (a + b) = 2 powi a * 2 powi b"
  by (simp add: power_int_add)

lemma p2_less_cancel: "(2::real) powi a < 2 powi b \<Longrightarrow> a < b"
  using power_int_increasing [of b a "2::real"] by (cases "a < b") simp_all

lemma p2_le_cancel: "(2::real) powi a \<le> 2 powi b \<Longrightarrow> a \<le> b"
  using power_int_strict_increasing [of b a "2::real"] by (cases "a \<le> b") simp_all

lemma p2_53: "(2::real) powi (k + 1) = 2 ^ 53 * 2 powi (k - 52)"
proof -
  have "k + 1 = 53 + (k - 52)" by simp
  then have "(2::real) powi (k + 1) = 2 powi 53 * 2 powi (k - 52)"
    by (simp only: p2_add)
  then show ?thesis by simp
qed

lemma p2_52: "(2::real) powi k = 2 ^ 52 * 2 powi (k - 52)"
proof -
  have "k = 52 + (k - 52)" by simp
  then have "(2::real) powi k = 2 powi 52 * 2 powi (k - 52)"
    by (metis p2_add)
  then show ?thesis by simp
qed

lemma dbl_0: "dbl 0 = 0"
  by (simp add: dbl_def)

lemma expo_minus: "expo (- x) = expo x"
  by (simp add: expo_def)

lemma dbl_minus: "dbl (- x) = - dbl x"
  by (simp add: dbl_def ulp_def expo_minus sgn_minus)

lemma dbl_nonneg: "0 \<le> x \<Longrightarrow> 0 \<le> dbl x"
  unfolding dbl_def using ulp_pos [of x] rne_nonneg [of "\<bar>x\<bar> / ulp x"]
  by (simp add: sgn_if)

lemma dbl_nonpos: "x \<le> 0 \<Longrightarrow> dbl x \<le> 0"
  using dbl_nonneg [of "- x"] by (simp add: dbl_minus)

lemma dbl_pos_form: "0 \<le> x \<Longrightarrow> dbl x = of_int (rne (x / ulp x)) * ulp x"
  by (cases "x = 0") (simp_all add: dbl_def rne_def sgn_if)

lemma ulp_eval:
  assumes "2 powi k \<le> \<bar>x\<bar>" and "\<bar>x\<bar> < 2 powi (k + 1)" and "- 1022 \<le> k"
  shows "ulp x = 2 powi (k - 52)"
  by (simp add: ulp_def expo_eq [OF assms])

lemma dbl_eval:
  assumes "2 powi k \<le> \<bar>x\<bar>" and "\<bar>x\<bar> < 2 powi (k + 1)" and "- 1022 \<le> k"
  shows "dbl x = sgn x * (of_int (rne (\<bar>x\<bar> / 2 powi (k - 52))) * 2 powi (k - 52))"
  by (simp add: dbl_def ulp_eval [OF assms])

lemma dbl_exact_pos:
  fixes m :: int
  assumes x: "x = of_int m * 2 powi e" and m: "0 < m" "m < 2 ^ 53" and e: "- 1074 \<le> e"
  shows "dbl x = x"
proof -
  have xpos: "0 < x"
    using x m by simp
  define E where "E = expo x"
  have "E - 52 \<le> e"
  proof (cases "- 1022 < E")
    case False
    then show ?thesis
      using e expo_ge [of x] by (simp add: E_def)
  next
    case True
    then have "2 powi E \<le> x"
      using expo_lower [of x] xpos by (simp add: E_def)
    also have "x < 2 ^ 53 * 2 powi e"
      using m by (simp add: x)
    also have "\<dots> = 2 powi (53 + e)"
      by (simp add: p2_add)
    finally show ?thesis
      using p2_less_cancel by fastforce
  qed
  then obtain n :: nat where n: "e = (E - 52) + int n"
    by (metis add.commute diff_add_cancel nonneg_int_cases diff_ge_0_iff_ge)
  define u where "u = ulp x"
  have u: "u = 2 powi (E - 52)"
    by (simp add: u_def ulp_def E_def)
  have pe: "(2::real) powi e = 2 powi (E - 52) * 2 ^ n"
    by (simp add: n p2_add)
  have q: "x / u = of_int (m * 2 ^ n)"
    by (simp add: x u pe)
  then have "rne (x / u) = m * 2 ^ n"
    by (simp only: rne_of_int)
  then have "dbl x = of_int (m * 2 ^ n) * u"
    using xpos by (simp add: dbl_pos_form u_def)
  also have "\<dots> = x"
    by (simp add: x u pe)
  finally show ?thesis .
qed

lemma dbl_exact:
  fixes m :: int
  assumes x: "x = of_int m * 2 powi e" and m: "\<bar>m\<bar> < 2 ^ 53" and e: "- 1074 \<le> e"
  shows "dbl x = x"
proof -
  consider "m = 0" | "0 < m" | "m < 0" by linarith
  then show ?thesis
  proof cases
    case 1
    then show ?thesis by (simp add: x dbl_0)
  next
    case 2
    then show ?thesis
      using dbl_exact_pos [OF x _ _ e] m by simp
  next
    case 3
    then have "dbl (- x) = - x"
      using dbl_exact_pos [of "- x" "- m" e] m e by (simp add: x)
    then show ?thesis
      by (simp add: dbl_minus)
  qed
qed

lemma dbl_int: "\<bar>m\<bar> < 2 ^ 53 \<Longrightarrow> dbl (of_int m) = of_int m"
  using dbl_exact [of "of_int m" m 0] by simp

lemma dbl_upper: "0 \<le> x \<Longrightarrow> dbl x \<le> 2 powi (expo x + 1)"
proof -
  assume x: "0 \<le> x"
  have "x < 2 powi (expo x + 1)"
    using expo_upper [of x] x by simp
  also have "\<dots> = 2 ^ 53 * ulp x"
    by (simp only: ulp_def p2_53)
  finally have "x / ulp x \<le> of_int (2 ^ 53)"
    using ulp_pos [of x] by (simp add: field_simps)
  then have "rne (x / ulp x) \<le> 2 ^ 53"
    using rne_mono rne_of_int by metis
  then have "of_int (rne (x / ulp x)) * ulp x \<le> 2 ^ 53 * ulp x"
    using ulp_pos [of x] by (simp add: of_int_le_iff [symmetric] del: of_int_le_iff)
  then show ?thesis
    using x by (simp add: dbl_pos_form p2_53 [of "expo x"] ulp_def)
qed

lemma dbl_lower: "0 \<le> x \<Longrightarrow> - 1022 < expo x \<Longrightarrow> 2 powi (expo x) \<le> dbl x"
proof -
  assume x: "0 \<le> x" and e: "- 1022 < expo x"
  have "2 powi (expo x) \<le> x"
    using expo_lower [OF e] x by simp
  moreover have "2 powi (expo x) = 2 ^ 52 * ulp x"
    using p2_52 [of "expo x"] by (simp only: ulp_def)
  ultimately have "of_int (2 ^ 52) \<le> x / ulp x"
    using ulp_pos [of x] by (simp add: field_simps)
  then have "2 ^ 52 \<le> rne (x / ulp x)"
    using rne_mono rne_of_int by metis
  then have "2 ^ 52 * ulp x \<le> of_int (rne (x / ulp x)) * ulp x"
    using ulp_pos [of x] by (simp add: of_int_le_iff [symmetric] del: of_int_le_iff)
  then show ?thesis
    using x p2_52 [of "expo x"] by (simp add: dbl_pos_form ulp_def)
qed

lemma expo_mono: "0 < x \<Longrightarrow> x \<le> y \<Longrightarrow> expo x \<le> expo y"
proof -
  assume a: "0 < x" "x \<le> y"
  then have "log 2 x \<le> log 2 y"
    by simp
  then have "\<lfloor>log 2 x\<rfloor> \<le> \<lfloor>log 2 y\<rfloor>"
    by (rule floor_mono)
  then show ?thesis
    using a by (simp add: expo_def)
qed

lemma dbl_mono_pos:
  assumes "0 \<le> x" and "x \<le> y"
  shows "dbl x \<le> dbl y"
proof (cases "x = 0")
  case True
  then show ?thesis
    using assms dbl_nonneg [of y] by (simp add: dbl_0)
next
  case False
  then have xp: "0 < x" and yp: "0 \<le> y"
    using assms by simp_all
  have le: "expo x \<le> expo y"
    using expo_mono [OF xp assms(2)] .
  show ?thesis
  proof (cases "expo x = expo y")
    case True
    then have u: "ulp x = ulp y"
      by (simp add: ulp_def)
    have "x / ulp y \<le> y / ulp y"
      using assms(2) ulp_pos [of y] by (simp add: divide_right_mono)
    then have "rne (x / ulp y) \<le> rne (y / ulp y)"
      by (rule rne_mono)
    then have "of_int (rne (x / ulp y)) * ulp y \<le> of_int (rne (y / ulp y)) * ulp y"
      using ulp_pos [of y] by simp
    then show ?thesis
      using assms(1) yp by (simp add: dbl_pos_form u)
  next
    case False
    then have lt: "expo x + 1 \<le> expo y" and e: "- 1022 < expo y"
      using le expo_ge [of x] by simp_all
    have "dbl x \<le> 2 powi (expo x + 1)"
      using dbl_upper [OF assms(1)] .
    also have "\<dots> \<le> 2 powi (expo y)"
      using lt by (intro power_int_increasing) simp_all
    also have "\<dots> \<le> dbl y"
      using dbl_lower [OF yp e] .
    finally show ?thesis .
  qed
qed

lemma dbl_mono:
  assumes "x \<le> y"
  shows "dbl x \<le> dbl y"
proof -
  consider "0 \<le> x" | "y \<le> 0" | "x < 0" "0 < y" by linarith
  then show ?thesis
  proof cases
    case 1
    then show ?thesis using assms by (rule dbl_mono_pos)
  next
    case 2
    then have "dbl (- y) \<le> dbl (- x)"
      using assms by (intro dbl_mono_pos) simp_all
    then show ?thesis by (simp add: dbl_minus)
  next
    case 3
    then show ?thesis
      using dbl_nonpos [of x] dbl_nonneg [of y] by simp
  qed
qed



lemma minSub_pos: "0 < minSub"
  unfolding minSub_def by (rule zero_less_power_int) simp

lemma p2_from: "t \<le> e \<Longrightarrow> (2::real) powi e = 2 ^ nat (e - t) * 2 powi t"
proof -
  assume "t \<le> e"
  then obtain n :: nat where n: "e = int n + t"
    by (metis add.commute zle_iff_zadd)
  have "(2::real) powi e = 2 powi (int n) * 2 powi t"
    unfolding n by (rule p2_add)
  then show ?thesis by (simp add: n)
qed

lemma p2_half: "(2::real) powi (t - 1) = 2 powi t / 2"
  using p2_add [of "t - 1" 1] by simp

lemma rne_le_2_53: "0 \<le> x \<Longrightarrow> rne (x / ulp x) \<le> 2 ^ 53"
proof -
  assume x: "0 \<le> x"
  have "x < 2 ^ 53 * ulp x"
    using expo_upper [of x] x by (simp add: ulp_def p2_53 [of "expo x"])
  then have "x / ulp x \<le> of_int (2 ^ 53)"
    using ulp_pos [of x] by (simp add: field_simps)
  then show ?thesis
    using rne_mono rne_of_int by metis
qed

lemma dbl_idem: "dbl (dbl x) = dbl x"
proof -
  have pos: "dbl (dbl x) = dbl x" if x: "0 \<le> x" for x
  proof -
    define m where "m = rne (x / ulp x)"
    have d: "dbl x = of_int m * 2 powi (expo x - 52)"
      using x by (simp add: dbl_pos_form m_def ulp_def)
    have m: "0 \<le> m" "m \<le> 2 ^ 53"
      using rne_le_2_53 [OF x] rne_nonneg [of "x / ulp x"] x ulp_pos [of x]
      by (simp_all add: m_def)
    show ?thesis
    proof (cases "m = 2 ^ 53")
      case False
      then show ?thesis
        using dbl_exact [OF d] m expo_ge [of x] by simp
    next
      case True
      then have "dbl x = of_int 1 * 2 powi (expo x + 1)"
        by (simp add: d p2_53 [of "expo x"])
      then show ?thesis
        using dbl_exact [of "dbl x" 1 "expo x + 1"] expo_ge [of x] by simp
    qed
  qed
  show ?thesis
  proof (cases "0 \<le> x")
    case True
    then show ?thesis by (rule pos)
  next
    case False
    then have "dbl (dbl (- x)) = dbl (- x)"
      by (intro pos) simp
    then show ?thesis
      by (simp add: dbl_minus)
  qed
qed


lemma dbl_grid: "\<exists>n :: int. dbl x = of_int n * minSub"
proof -
  have "- 1074 \<le> expo x - 52"
    using expo_ge [of x] by simp
  then have "ulp x = 2 ^ nat (expo x - 52 - (- 1074)) * minSub"
    unfolding ulp_def minSub_def by (rule p2_from)
  then obtain k :: nat where k: "ulp x = 2 ^ k * minSub"
    by blast
  define s :: int where "s = (if x < 0 then - 1 else if x = 0 then 0 else 1)"
  have "sgn x = of_int s"
    by (simp add: s_def sgn_if)
  then have "dbl x = of_int (s * rne (\<bar>x\<bar> / ulp x) * 2 ^ k) * minSub"
    unfolding dbl_def by (simp add: k)
  then show ?thesis by blast
qed

lemma dbl_eq_0_imp: "dbl y = 0 \<Longrightarrow> \<bar>y\<bar> \<le> minSub / 2"
proof -
  assume z: "dbl y = 0"
  have pos: "x \<le> minSub / 2" if x: "0 \<le> x" and d: "dbl x = 0" for x
  proof -
    have r: "rne (x / ulp x) = 0"
      using d x ulp_pos [of x] by (simp add: dbl_pos_form)
    have "\<bar>of_int (rne (x / ulp x)) - x / ulp x\<bar> \<le> 1 / 2"
      by (rule rne_err)
    then have h: "x \<le> ulp x / 2"
      using ulp_pos [of x] x by (simp add: r field_simps)
    have "\<not> - 1022 < expo x"
    proof
      assume "- 1022 < expo x"
      then have "2 ^ 52 * ulp x \<le> x"
        using expo_lower [of x] x p2_52 [of "expo x"] by (simp add: ulp_def)
      then show False
        using h ulp_pos [of x] by simp
    qed
    then have "expo x = - 1022"
      using expo_ge [of x] by simp
    then have "ulp x = minSub"
      by (simp add: ulp_def minSub_def)
    then show ?thesis
      using h by simp
  qed
  show ?thesis
  proof (cases "0 \<le> y")
    case True
    then show ?thesis using pos [of y] z by simp
  next
    case False
    then show ?thesis using pos [of "- y"] z by (simp add: dbl_minus)
  qed
qed

text \<open>The sum of two doubles rounds to zero only when it is zero.\<close>

lemma dbl_sum_eq_0:
  assumes "dbl (dbl a + dbl b) = 0"
  shows "dbl a + dbl b = 0"
proof -
  obtain m n :: int where m: "dbl a = of_int m * minSub"
    and n: "dbl b = of_int n * minSub"
    using dbl_grid by blast
  have s: "dbl a + dbl b = of_int (m + n) * minSub"
    by (simp add: m n algebra_simps)
  have "\<bar>dbl a + dbl b\<bar> \<le> minSub / 2"
    using dbl_eq_0_imp [OF assms] .
  then have "\<bar>of_int (m + n) :: real\<bar> * minSub \<le> minSub / 2"
    using minSub_pos by (simp add: s abs_mult del: of_int_add)
  then have "\<bar>of_int (m + n) :: real\<bar> \<le> 1 / 2"
    using minSub_pos by (simp add: field_simps del: of_int_add)
  then have "\<bar>of_int (m + n) :: real\<bar> < of_int 1"
    by simp
  then have "\<bar>m + n\<bar> < 1"
    by (simp only: of_int_abs [symmetric] of_int_less_iff)
  then have "m + n = 0"
    by arith
  then show ?thesis
    by (simp add: s)
qed





section \<open>Lemmas on the analyzer\<close>

subsection \<open>Rounded results\<close>

lemma fl_not_NaN [simp]: "fl x \<noteq> NaN" "NaN \<noteq> fl x"
  by (simp_all add: fl_def)

lemma fl_0: "fl 0 = Fin 0"
  by (simp add: fl_def dbl_0)

lemma fl_cases: "fl x = PosInf \<or> fl x = NegInf \<or> fl x = Fin (dbl x)"
  by (simp add: fl_def)

lemma fl_eq_Fin: "fl x = Fin y \<Longrightarrow> y = dbl x"
  by (simp add: fl_def split: if_splits)

lemma fl_Fin_0_iff: "fl x = Fin 0 \<longleftrightarrow> dbl x = 0"
  by (auto simp: fl_def split: if_splits)

lemma big_bound: "(2::real) ^ 64 < 2 ^ 1024"
  by (rule power_strict_increasing) simp_all

lemma dbl_p2_64: "dbl (2 ^ 64) = 2 ^ 64"
  using dbl_exact [of "2 ^ 64" 1 64] by simp

lemma dbl_abs_le: "\<bar>x\<bar> \<le> 2 ^ 64 \<Longrightarrow> \<bar>dbl x\<bar> \<le> 2 ^ 64"
proof -
  assume a: "\<bar>x\<bar> \<le> 2 ^ 64"
  define B :: real where "B = 2 ^ 64"
  have B: "dbl B = B"
    unfolding B_def by (rule dbl_p2_64)
  have "x \<le> B" and "- B \<le> x"
    using a unfolding B_def by (simp_all only: abs_le_iff minus_le_iff)
  then have "dbl x \<le> dbl B" and "dbl (- B) \<le> dbl x"
    by (simp_all only: dbl_mono)
  then have "\<bar>dbl x\<bar> \<le> B"
    by (simp add: dbl_minus B abs_le_iff minus_le_iff)
  then show ?thesis
    unfolding B_def .
qed

lemma fl_small: "\<bar>x\<bar> \<le> 2 ^ 64 \<Longrightarrow> fl x = Fin (dbl x)"
proof -
  assume "\<bar>x\<bar> \<le> 2 ^ 64"
  then have "\<bar>dbl x\<bar> \<le> 2 ^ 64"
    by (rule dbl_abs_le)
  then have "\<not> 2 ^ 1024 \<le> dbl x" and "\<not> dbl x \<le> - (2 ^ 1024)"
    using big_bound by (simp_all add: abs_le_iff)
  then show ?thesis
    unfolding fl_def by (simp only: if_False)
qed

lemma fl_exact: "dbl x = x \<Longrightarrow> \<bar>x\<bar> \<le> 2 ^ 64 \<Longrightarrow> fl x = Fin x"
  by (simp add: fl_small)

lemma fl_dbl: "fl x = Fin y \<Longrightarrow> fl y = Fin y"
proof -
  assume a: "fl x = Fin y"
  then have y: "y = dbl x"
    by (rule fl_eq_Fin)
  have "\<not> 2 ^ 1024 \<le> dbl x" and "\<not> dbl x \<le> - (2 ^ 1024)"
    using a by (auto simp: fl_def split: if_splits)
  then show ?thesis
    unfolding fl_def y dbl_idem by (simp only: if_False)
qed

lemma fl_int: "\<bar>m\<bar> < 2 ^ 53 \<Longrightarrow> fl (of_int m) = Fin (of_int m)"
proof -
  assume m: "\<bar>m\<bar> < 2 ^ 53"
  then have "\<bar>of_int m :: real\<bar> \<le> 2 ^ 53"
    by (metis less_imp_le of_int_abs of_int_le_iff of_int_numeral of_int_power)
  also have "(2::real) ^ 53 \<le> 2 ^ 64"
    by (rule power_increasing) simp_all
  finally show ?thesis
    using dbl_int [OF m] by (intro fl_exact) simp_all
qed

lemma fl_numeral: "numeral n < (2::int) ^ 53 \<Longrightarrow> fl (numeral n) = Fin (numeral n)"
  using fl_int [of "numeral n"] by simp

lemma fl_neg_numeral: "numeral n < (2::int) ^ 53 \<Longrightarrow> fl (- numeral n) = Fin (- numeral n)"
  using fl_int [of "- numeral n"] by simp

lemma fl_1: "fl 1 = Fin 1"
  using fl_int [of 1] by simp

lemma dbl_1: "dbl 1 = 1"
  using dbl_int [of 1] by simp

lemma fl_half_int: "\<bar>j\<bar> < 2 ^ 53 \<Longrightarrow> fl (of_int j / 2) = Fin (of_int j / 2)"
proof -
  assume j: "\<bar>j\<bar> < 2 ^ 53"
  have "\<bar>of_int j :: real\<bar> \<le> 2 ^ 53"
    using j by (metis less_imp_le of_int_abs of_int_le_iff of_int_numeral of_int_power)
  also have "(2::real) ^ 53 \<le> 2 ^ 64"
    by (rule power_increasing) simp_all
  finally have b: "\<bar>of_int j / 2 :: real\<bar> \<le> 2 ^ 64"
    by simp
  have "dbl (of_int j / 2) = of_int j / 2"
    using dbl_exact [of "of_int j / 2" j "- 1"] j by simp
  then show ?thesis
    using b by (rule fl_exact)
qed

subsection \<open>What safe returns\<close>

lemma safe_fl: "fl d = Fin d \<Longrightarrow> fl (safe n d) = Fin (safe n d)"
  by (auto simp: safe_def dest: fl_dbl split: option.splits number.splits)

lemma safe_0_fl: "fl (safe n 0) = Fin (safe n 0)"
  by (rule safe_fl) (rule fl_0)

lemma safe_1_fl: "fl (safe n 1) = Fin (safe n 1)"
  by (rule safe_fl) (rule fl_1)

lemma safe_dbl: "fl d = Fin d \<Longrightarrow> dbl (safe n d) = safe n d"
  using safe_fl [of d n] fl_eq_Fin by fastforce

lemma safe_unusable: "unusable n \<Longrightarrow> safe n d = d"
  by (auto simp: unusable_def safe_def)

lemma safe_Fin_exact: "fl x = Fin x \<Longrightarrow> safe (Some (Fin x)) d = x"
  by (simp add: safe_def)

subsection \<open>Clamping a rounded value\<close>

lemma clamp_Fin: "clamp (Fin x) (Fin a) (Fin b) = Fin (max a (min b x))"
  by (simp add: clamp_def mathMin_def mathMax_def max_def min_def)

lemma clamp_NaN: "clamp NaN a b = NaN"
  by (simp add: clamp_def mathMin_def mathMax_def)

lemma isIntIn_mono: "isIntIn a b n \<Longrightarrow> a' \<le> a \<Longrightarrow> b \<le> b' \<Longrightarrow> isIntIn a' b' n"
  by (cases n) (auto simp: isIntIn_def intro: order_trans)

lemma clamp_round_int:
  assumes "n \<noteq> NaN" and "a \<le> b"
  shows "isIntIn a b (clamp (mathRound n) (Fin (of_int a)) (Fin (of_int b)))"
proof (cases n)
  case (Fin x)
  have "max (of_int a) (min (of_int b) (roundR x)) = of_int (max a (min b \<lfloor>x + 1 / 2\<rfloor>))"
    by (simp add: roundR_def max_def min_def)
  then show ?thesis
    using assms(2) by (simp add: Fin clamp_Fin isIntIn_def)
next
  case PosInf
  then show ?thesis
    using assms(2) by (simp add: clamp_def mathMin_def mathMax_def isIntIn_def)
next
  case NegInf
  then show ?thesis
    using assms(2) by (simp add: clamp_def mathMin_def mathMax_def isIntIn_def)
next
  case NaN
  then show ?thesis using assms(1) by simp
qed

lemma clamp_round_0_100: "n \<noteq> NaN \<Longrightarrow> isIntIn 0 100 (clamp (mathRound n) (Fin 0) (Fin 100))"
  using clamp_round_int [of n 0 100] by simp

subsection \<open>Where NaN comes from\<close>

lemma nadd_Fin_NaN: "nadd (Fin c) y = NaN \<longleftrightarrow> y = NaN"
  by (cases y) simp_all

lemma nadd_Fin_NaN': "nadd y (Fin c) = NaN \<longleftrightarrow> y = NaN"
  by (cases y) simp_all

lemma nsub_Fin_NaN: "nsub y (Fin c) = NaN \<longleftrightarrow> y = NaN"
  by (simp add: nsub_def nadd_Fin_NaN')

lemma nmul_Fin_NaN: "c \<noteq> 0 \<Longrightarrow> nmul y (Fin c) = NaN \<longleftrightarrow> y = NaN"
  by (cases y) (simp_all add: infOfSign_def sgn_if)

lemma ndiv_Fin_NaN: "ndiv (Fin x) d = NaN \<longleftrightarrow> d = NaN \<or> (d = Fin 0 \<and> x = 0)"
  by (cases d) (auto simp: infOfSign_def)

lemma lit_small: "\<bar>c\<bar> \<le> 2 ^ 64 \<Longrightarrow> lit c = Fin (dbl c)"
  by (simp only: lit_def fl_small)

lemma lit_half: "lit 0.5 = Fin (1 / 2)"
  using fl_half_int [of 1] by (simp add: lit_def)

lemma lit_not_NaN [simp]: "lit c \<noteq> NaN"
  by (simp add: lit_def)

subsection \<open>Buy pressure\<close>

lemma computeBuyPressure_spec:
  "computeBuyPressure dp = buyPressureSpec (safe (buys24h dp) 0) (safe (sells24h dp) 0)"
  by (simp add: computeBuyPressure_def buyPressureSpec_def Let_def)

lemma safe_sum_zero:
  "nadd (Fin (safe m 0)) (Fin (safe n 0)) = Fin 0 \<longleftrightarrow> safe m 0 + safe n 0 = 0"
proof
  assume "nadd (Fin (safe m 0)) (Fin (safe n 0)) = Fin 0"
  then have "dbl (safe m 0 + safe n 0) = 0"
    by (simp add: fl_Fin_0_iff)
  then have "dbl (dbl (safe m 0) + dbl (safe n 0)) = 0"
    by (simp add: safe_dbl fl_0)
  then have "dbl (safe m 0) + dbl (safe n 0) = 0"
    by (rule dbl_sum_eq_0)
  then show "safe m 0 + safe n 0 = 0"
    by (simp add: safe_dbl fl_0)
next
  assume "safe m 0 + safe n 0 = 0"
  then show "nadd (Fin (safe m 0)) (Fin (safe n 0)) = Fin 0"
    by (simp add: fl_0)
qed

lemma denominator_zero:
  assumes "dbl b = b" and "dbl s = s"
  shows "nadd (nadd (Fin b) (Fin s)) (Fin 1) = Fin 0 \<longleftrightarrow> fl (b + s) = Fin (- 1)"
proof
  assume a: "nadd (nadd (Fin b) (Fin s)) (Fin 1) = Fin 0"
  then obtain z where z: "fl (b + s) = Fin z"
    by (cases "fl (b + s)") simp_all
  then have zd: "z = dbl (b + s)"
    by (rule fl_eq_Fin)
  have "dbl (z + 1) = 0"
    using a z by (simp add: fl_Fin_0_iff)
  then have "dbl (dbl (b + s) + dbl 1) = 0"
    by (simp add: zd dbl_1)
  then have "dbl (b + s) + dbl 1 = 0"
    by (rule dbl_sum_eq_0)
  then have "z = - 1"
    by (simp add: zd dbl_1)
  with z show "fl (b + s) = Fin (- 1)"
    by simp
next
  assume "fl (b + s) = Fin (- 1)"
  then show "nadd (nadd (Fin b) (Fin s)) (Fin 1) = Fin 0"
    by (simp add: fl_0)
qed

lemma clamp_round_NaN_iff: "clamp (mathRound n) (Fin 0) (Fin 100) = NaN \<longleftrightarrow> n = NaN"
proof
  assume a: "clamp (mathRound n) (Fin 0) (Fin 100) = NaN"
  show "n = NaN"
  proof (rule ccontr)
    assume "n \<noteq> NaN"
    then have "isIntIn 0 100 (clamp (mathRound n) (Fin 0) (Fin 100))"
      by (rule clamp_round_0_100)
    with a show False
      by (simp add: isIntIn_def)
  qed
next
  assume "n = NaN"
  then show "clamp (mathRound n) (Fin 0) (Fin 100) = NaN"
    by (simp add: clamp_NaN)
qed

lemma buyPressureSpec_NaN_iff:
  assumes b: "dbl b = b" and s: "dbl s = s"
  shows "buyPressureSpec b s = NaN \<longleftrightarrow> b = 0 \<and> s = - 1"
proof
  assume a: "buyPressureSpec b s = NaN"
  then have n: "nadd (Fin b) (Fin s) \<noteq> Fin 0"
    by (auto simp: buyPressureSpec_def split: if_splits)
  with a have "nmul (ndiv (Fin b) (nadd (nadd (Fin b) (Fin s)) (Fin 1))) (Fin 100) = NaN"
    by (simp add: buyPressureSpec_def clamp_round_NaN_iff)
  then have "ndiv (Fin b) (nadd (nadd (Fin b) (Fin s)) (Fin 1)) = NaN"
    by (simp add: nmul_Fin_NaN)
  moreover have "nadd (nadd (Fin b) (Fin s)) (Fin 1) \<noteq> NaN"
    by (simp add: nadd_Fin_NaN')
  ultimately have "nadd (nadd (Fin b) (Fin s)) (Fin 1) = Fin 0 \<and> b = 0"
    unfolding ndiv_Fin_NaN by blast
  then have d: "nadd (nadd (Fin b) (Fin s)) (Fin 1) = Fin 0" and b0: "b = 0"
    by blast+
  have "fl (b + s) = Fin (- 1)"
    using d denominator_zero [OF b s] by simp
  then have "dbl s = - 1"
    using b0 fl_eq_Fin by fastforce
  with b0 s show "b = 0 \<and> s = - 1"
    by simp
next
  assume "b = 0 \<and> s = - 1"
  then show "buyPressureSpec b s = NaN"
    using fl_int [of "- 1"]
    by (simp add: buyPressureSpec_def fl_0 infOfSign_def clamp_NaN)
qed

lemma buyPressureSpec_int: "buyPressureSpec b s \<noteq> NaN \<Longrightarrow> isIntIn 0 100 (buyPressureSpec b s)"
  using clamp_round_0_100
  by (auto simp: buyPressureSpec_def clamp_round_NaN_iff isIntIn_def split: if_splits)


lemma computeBuyPressure_NaN_iff:
  "computeBuyPressure dp = NaN \<longleftrightarrow> safe (buys24h dp) 0 = 0 \<and> safe (sells24h dp) 0 = - 1"
  unfolding computeBuyPressure_spec
  by (rule buyPressureSpec_NaN_iff) (simp_all add: safe_dbl fl_0)

lemma computeBuyPressure_int:
  "computeBuyPressure dp \<noteq> NaN \<Longrightarrow> isIntIn 0 100 (computeBuyPressure dp)"
  unfolding computeBuyPressure_spec by (rule buyPressureSpec_int)

subsection \<open>Volatility\<close>

lemma computeVolatilityScore_eq:
  "computeVolatilityScore dp =
     (if safe (marketCap dp) 1 \<le> 0 then Fin 50
      else volatilityBands (ndiv (Fin (safe (volume24h dp) 0)) (Fin (safe (marketCap dp) 1))))"
  by (simp add: computeVolatilityScore_def volatilityBands_def Let_def)

lemma band_int:
  assumes "n \<noteq> NaN" and "a \<le> b" and "10 \<le> a" and "b \<le> 95"
  shows "isIntIn 10 95 (clamp (mathRound n) (Fin (of_int a)) (Fin (of_int b)))"
  using clamp_round_int [OF assms(1,2)] assms(3,4) by (rule isIntIn_mono)

lemma volatilityBands_int: "ratio \<noteq> NaN \<Longrightarrow> isIntIn 10 95 (volatilityBands ratio)"
proof -
  assume r: "ratio \<noteq> NaN"
  have 1: "isIntIn 10 95 (clamp (mathRound (nadd (Fin 10) (nmul ratio (Fin 300)))) (Fin 10) (Fin 25))"
    using band_int [of "nadd (Fin 10) (nmul ratio (Fin 300))" 10 25] r
    by (simp add: nadd_Fin_NaN nmul_Fin_NaN)
  have s: "nsub ratio (lit c) \<noteq> NaN" if "\<bar>c\<bar> \<le> 1" for c
  proof -
    have "\<bar>c\<bar> \<le> 2 ^ 64"
      using that by (rule order_trans) simp
    then show ?thesis
      using r by (simp add: lit_small nsub_Fin_NaN)
  qed
  have 2: "isIntIn 10 95 (clamp (mathRound (nadd (Fin 25) (nmul (nsub ratio (lit 0.05)) (Fin 166))))
      (Fin 25) (Fin 50))"
    using band_int [of "nadd (Fin 25) (nmul (nsub ratio (lit 0.05)) (Fin 166))" 25 50] s
    by (simp add: nadd_Fin_NaN nmul_Fin_NaN)
  have 3: "isIntIn 10 95 (clamp (mathRound (nadd (Fin 50) (nmul (nsub ratio (lit 0.2)) (Fin 83))))
      (Fin 50) (Fin 75))"
    using band_int [of "nadd (Fin 50) (nmul (nsub ratio (lit 0.2)) (Fin 83))" 50 75] s
    by (simp add: nadd_Fin_NaN nmul_Fin_NaN)
  have 4: "isIntIn 10 95 (clamp (mathRound (nadd (Fin 75) (nmul (nsub ratio (lit 0.5)) (Fin 40))))
      (Fin 75) (Fin 95))"
    using band_int [of "nadd (Fin 75) (nmul (nsub ratio (lit 0.5)) (Fin 40))" 75 95] s
    by (simp add: nadd_Fin_NaN nmul_Fin_NaN)
  show ?thesis
    unfolding volatilityBands_def using 1 2 3 4 by (simp only: if_split) blast
qed

lemma computeVolatilityScore_int: "isIntIn 10 95 (computeVolatilityScore dp)"
proof (cases "safe (marketCap dp) 1 \<le> 0")
  case True
  then show ?thesis
    by (simp add: computeVolatilityScore_eq isIntIn_def)
next
  case False
  then have "ndiv (Fin (safe (volume24h dp) 0)) (Fin (safe (marketCap dp) 1)) \<noteq> NaN"
    by simp
  then show ?thesis
    using False by (simp add: computeVolatilityScore_eq volatilityBands_int)
qed

lemma isIntIn_Fin: "isIntIn a b n \<Longrightarrow> \<exists>i. n = Fin (of_int i) \<and> a \<le> i \<and> i \<le> b"
  by (cases n) (auto simp: isIntIn_def intro!: exI [of _ "\<lfloor>_\<rfloor>"] simp: le_floor_iff floor_le_iff)

subsection \<open>The composite score is exact on an integer buy pressure\<close>

lemma fl_half:
  assumes "2 * x \<in> \<int>" and "\<bar>x\<bar> \<le> 1000"
  shows "fl x = Fin x"
proof -
  obtain j where j: "2 * x = of_int j"
    using assms(1) by (auto elim: Ints_cases)
  then have x: "x = of_int j / 2"
    by simp
  have "\<bar>of_int j :: real\<bar> \<le> 2000"
    using assms(2) unfolding j [symmetric] by simp
  then have "\<bar>j\<bar> \<le> 2000"
    by linarith
  then have "\<bar>j\<bar> < 2 ^ 53"
    by simp
  then show ?thesis
    unfolding x by (rule fl_half_int)
qed

lemma adjust:
  assumes "2 * x \<in> \<int>" and "\<bar>x\<bar> \<le> 900" and "c \<in> \<int>" and "\<bar>c\<bar> \<le> 100"
  shows "nadd (Fin x) (Fin c) = Fin (x + c)" and "nsub (Fin x) (Fin c) = Fin (x - c)"
    and "2 * (x + c) \<in> \<int>" and "2 * (x - c) \<in> \<int>"
proof -
  show 1: "2 * (x + c) \<in> \<int>" and 2: "2 * (x - c) \<in> \<int>"
    using assms(1,3) by (simp_all add: distrib_left right_diff_distrib)
  show "nadd (Fin x) (Fin c) = Fin (x + c)"
    using fl_half [OF 1] assms(2,4) by simp
  show "nsub (Fin x) (Fin c) = Fin (x - c)"
    using fl_half [OF 2] assms(2,4) by (simp add: nsub_def)
qed

lemma computeScore_Fin:
  assumes "isIntIn 0 100 (Fin bp)"
  shows "computeScore (Fin bp) (Fin v) rl td ld = Fin (scoreSpec bp v rl td ld)"
proof -
  have bp: "bp \<in> \<int>" "0 \<le> bp" "bp \<le> 100"
    using assms by (auto simp: isIntIn_def elim: ssubst)
  define x0 where "x0 = 50 + (bp - 50) * (1 / 2)"
  define x1 where "x1 = x0 + (case td of Up \<Rightarrow> 10 | Down \<Rightarrow> - 10 | Reversal \<Rightarrow> - 5 | Sideways \<Rightarrow> 0)"
  define x2 where "x2 = x1 + (if v > 70 then - 5 else 0)"
  define x3 where "x3 = x2 + (case rl of Critical \<Rightarrow> - 20 | High \<Rightarrow> - 10 | Low \<Rightarrow> 10 | Medium \<Rightarrow> 0)"
  define x4 where "x4 = x3 + (case ld of Deep \<Rightarrow> 5 | Dry \<Rightarrow> - 10 | ModerateDepth \<Rightarrow> 0 | Shallow \<Rightarrow> 0)"
  have a: "nsub (Fin bp) (Fin 50) = Fin (bp - 50)"
    using fl_half [of "bp - 50"] bp by (simp add: nsub_def right_diff_distrib)
  have "2 * ((bp - 50) * (1 / 2)) = bp - 50"
    by simp
  moreover have "bp - 50 \<in> \<int>"
    using bp by simp
  ultimately have "2 * ((bp - 50) * (1 / 2)) \<in> \<int>"
    by (simp only:)
  moreover have "\<bar>(bp - 50) * (1 / 2)\<bar> \<le> 1000"
    using bp by simp
  ultimately have "fl ((bp - 50) * (1 / 2)) = Fin ((bp - 50) * (1 / 2))"
    by (rule fl_half)
  then have b: "nmul (Fin (bp - 50)) (lit 0.5) = Fin ((bp - 50) * (1 / 2))"
    unfolding lit_half nmul.simps .
  have "2 * x0 = bp + 50"
    unfolding x0_def by argo
  moreover have "bp + 50 \<in> \<int>"
    using bp by simp
  ultimately have i0: "2 * x0 \<in> \<int>"
    by (simp only:)
  have "25 \<le> x0"
    unfolding x0_def using bp(2) by argo
  moreover have "x0 \<le> 75"
    unfolding x0_def using bp(3) by argo
  ultimately have r0: "25 \<le> x0" "x0 \<le> 75"
    by blast+
  have s0: "nadd (Fin 50) (nmul (nsub (Fin bp) (Fin 50)) (lit 0.5)) = Fin x0"
    unfolding a b using fl_half [OF i0] r0 by (simp add: x0_def)
  have a0: "\<bar>x0\<bar> \<le> 900"
    using r0 by simp
  have s1: "(if td = Up then nadd (Fin x0) (Fin 10)
             else if td = Down then nsub (Fin x0) (Fin 10)
             else if td = Reversal then nsub (Fin x0) (Fin 5)
             else Fin x0) = Fin x1"
    using adjust(1,2) [OF i0 a0, of 10] adjust(2) [OF i0 a0, of 5]
    by (cases td) (simp_all add: x1_def)
  have i1: "2 * x1 \<in> \<int>"
    using adjust(3,4) [OF i0 a0, of 10] adjust(4) [OF i0 a0, of 5] i0
    by (cases td) (simp_all add: x1_def)
  have r1: "15 \<le> x1 \<and> x1 \<le> 85"
    using r0 by (cases td) (simp_all add: x1_def)
  then have a1: "\<bar>x1\<bar> \<le> 900"
    by linarith
  have s2: "(if ngt (Fin v) (Fin 70) then nsub (Fin x1) (Fin 5) else Fin x1) = Fin x2"
    using adjust(2) [OF i1 a1, of 5] by (simp add: x2_def ngt_def)
  have i2: "2 * x2 \<in> \<int>"
    using adjust(4) [OF i1 a1, of 5] i1 by (simp add: x2_def)
  have r2: "10 \<le> x2 \<and> x2 \<le> 85"
    using r1 by (simp add: x2_def)
  then have a2: "\<bar>x2\<bar> \<le> 900"
    by linarith
  have s3: "(if rl = Critical then nsub (Fin x2) (Fin 20)
             else if rl = High then nsub (Fin x2) (Fin 10)
             else if rl = Low then nadd (Fin x2) (Fin 10)
             else Fin x2) = Fin x3"
    using adjust(1,2) [OF i2 a2, of 10] adjust(2) [OF i2 a2, of 20]
    by (cases rl) (simp_all add: x3_def)
  have i3: "2 * x3 \<in> \<int>"
    using adjust(3,4) [OF i2 a2, of 10] adjust(4) [OF i2 a2, of 20] i2
    by (cases rl) (simp_all add: x3_def)
  have r3: "- 10 \<le> x3 \<and> x3 \<le> 95"
    using r2 by (cases rl) (simp_all add: x3_def)
  then have a3: "\<bar>x3\<bar> \<le> 900"
    by linarith
  have s4: "(if ld = Deep then nadd (Fin x3) (Fin 5)
             else if ld = Dry then nsub (Fin x3) (Fin 10)
             else Fin x3) = Fin x4"
    using adjust(1) [OF i3 a3, of 5] adjust(2) [OF i3 a3, of 10]
    by (cases ld) (simp_all add: x4_def)
  have "computeScore (Fin bp) (Fin v) rl td ld = clamp (mathRound (Fin x4)) (Fin 0) (Fin 100)"
    unfolding computeScore_def by (simp only: Let_def s0 s1 s2 s3 s4)
  also have "\<dots> = Fin (max 0 (min 100 (roundR x4)))"
    by (simp add: clamp_Fin)
  also have "x4 = 50 + (bp - 50) * 0.5
       + (case td of Up \<Rightarrow> 10 | Down \<Rightarrow> - 10 | Reversal \<Rightarrow> - 5 | Sideways \<Rightarrow> 0)
       + (if v > 70 then - 5 else 0)
       + (case rl of Critical \<Rightarrow> - 20 | High \<Rightarrow> - 10 | Low \<Rightarrow> 10 | Medium \<Rightarrow> 0)
       + (case ld of Deep \<Rightarrow> 5 | Dry \<Rightarrow> - 10 | ModerateDepth \<Rightarrow> 0 | Shallow \<Rightarrow> 0)"
    by (simp add: x4_def x3_def x2_def x1_def x0_def)
  finally show ?thesis
    unfolding scoreSpec_def .
qed

lemma computeScore_NaN: "computeScore NaN v rl td ld = NaN"
  by (simp add: computeScore_def Let_def nsub_def clamp_def mathMin_def mathMax_def)

lemma isIntIn_scoreSpec: "isIntIn 0 100 (Fin (scoreSpec bp v rl td ld))"
proof -
  have "max 0 (min 100 (roundR y)) = of_int (max 0 (min 100 \<lfloor>y + 1 / 2\<rfloor>))" for y
    by (simp add: roundR_def max_def min_def)
  then show ?thesis
    unfolding scoreSpec_def by (simp add: isIntIn_def)
qed

subsection \<open>The pushes of the source are the rows of the table\<close>

lemma pushIf_Nil: "pushIf c t [] = collect [(c, t)]"
  by (simp add: pushIf_def)

lemma collect_append: "collect (xs @ ys) = collect xs @ collect ys"
  by (induction xs rule: collect.induct) auto

lemma pushIf_collect: "pushIf c t (collect xs) = collect (xs @ [(c, t)])"
  by (simp add: pushIf_def collect_append)

lemma set_collect: "set (collect xs) \<subseteq> snd ` set xs"
  by (induction xs rule: collect.induct) auto



lemma distinct_collect: "distinct (map snd xs) \<Longrightarrow> distinct (collect xs)"
proof (induction xs rule: collect.induct)
  case 1
  then show ?case by simp
next
  case (2 c t xs)
  have "t \<notin> set (collect xs)"
    using 2(3) set_collect [of xs] by auto
  with 2 show ?case by simp
qed

lemma subseq_collect: "subseq (collect xs) (map snd xs)"
  by (induction xs rule: collect.induct) auto

lemma collect_Nil_iff: "collect xs = [] \<longleftrightarrow> (\<forall>p \<in> set xs. \<not> fst p)"
  by (induction xs rule: collect.induct) auto

lemma newSet_distinct: "distinct (seen @ xs) \<Longrightarrow> newSet seen xs = seen @ xs"
  by (induction xs arbitrary: seen) auto

lemma checklistSpec_tags: "map snd (checklistSpec dp t) = checklistTags"
  by (simp add: checklistSpec_def checklistTags_def)

lemma distinct_checklistTags: "distinct checklistTags"
  by (simp add: checklistTags_def)

lemma singleHolderCheck_eq: "singleHolderCheck dp = Inr (firstHolderOver50 dp)"
  by (simp add: singleHolderCheck_def firstHolderOver50_def elemAt_def getPct_def
      split: option.splits list.splits)

lemma computeRiskFactors_eq:
  "computeRiskFactors dp t =
     Inr (take 8 (if collect (checklistSpec dp t) = [] then [fallbackTag dp]
                  else collect (checklistSpec dp t)))"
proof -
  have d: "distinct (collect (checklistSpec dp t))"
    by (rule distinct_collect) (simp only: checklistSpec_tags distinct_checklistTags)
  have n: "newSet [] (collect (checklistSpec dp t)) = collect (checklistSpec dp t)"
    using newSet_distinct [of "[]" "collect (checklistSpec dp t)"] d by simp
  have c: "computeRiskFactors dp t =
      Inr (let deduped = newSet [] (collect (checklistSpec dp t));
               deduped = (if length deduped = 0 then deduped @ [fallbackTag dp] else deduped)
           in take 8 deduped)"
    unfolding computeRiskFactors_def singleHolderCheck_eq checklistSpec_def fallbackTag_def
    by (simp only: Let_def sum.case pushIf_Nil pushIf_collect append.simps)
  show ?thesis
    unfolding c n by (simp only: Let_def length_0_conv append_Nil if_cancel cong: if_cong)
qed

subsection \<open>What analyze returns\<close>

lemma analyze_returns: "\<exists>r. analyze now dp = Inr r"
  by (simp add: analyze_def computeRiskFactors_eq Let_def)

lemma analyze_fields:
  assumes "analyze now dp = Inr r"
  shows "riskFactors (quant r) = riskList dp"
    and "buyPressure (quant r) = computeBuyPressure dp"
    and "volatilityScore (quant r) = computeVolatilityScore dp"
    and "liquidityDepth (quant r) = computeLiquidityDepth dp"
    and "trendDirection (quant r) = computeTrendDirection dp"
    and "riskLevel (quant r) = computeRiskLevel (riskFactors (quant r)) (buyPressure (quant r))"
    and "score r = computeScore (buyPressure (quant r)) (volatilityScore (quant r))
           (riskLevel (quant r)) (trendDirection (quant r)) (liquidityDepth (quant r))"
    and "sentiment r = computeSentiment (score r) (riskLevel (quant r))"
    and "snap_snapshotAt (snapshot r) =
           (case snapshotAt dp of
              None \<Rightarrow> Fin now
            | Some t \<Rightarrow> if truthyNum t \<and> nlt (nsub (Fin now) t) (Fin 300000) then t else Fin now)"
    and "snap_priceUsd (snapshot r) = safe (priceUsd dp) 0"
    and "snap_marketCap (snapshot r) = safe (marketCap dp) 0"
    and "snap_volume24h (snapshot r) = safe (volume24h dp) 0"
    and "snap_liquidity (snapshot r) = safe (liquidity dp) 0"
    and "snap_holderCount (snapshot r) = safe (holderCount dp) 0"
    and "snap_buys24h (snapshot r) = safe (buys24h dp) 0"
    and "snap_sells24h (snapshot r) = safe (sells24h dp) 0"
    and "snap_bondingProgress (snapshot r) = safe (bondingProgress dp) 0"
    and "snap_top10HolderPct (snapshot r) =
           ndiv (mathRound (nmul (computeTop10Pct dp) (Fin 10))) (Fin 10)"
    and "volumeProfile (quant r) = computeVolumeProfile dp"
  using assms
  by (auto simp: analyze_def computeRiskFactors_eq Let_def riskList_def firedTags_def)

subsection \<open>Risk level\<close>

lemma negative_iff_not_positive: "f \<in> set negativeFactors \<longleftrightarrow> f \<notin> positiveTags"
  by (cases f) (simp_all add: negativeFactors_def positiveTags_def)

lemma negativeFactors_twenty: "length negativeFactors = 20 \<and> distinct negativeFactors"
  by (simp add: negativeFactors_def)

lemma critical_list_set: "set criticalFactors = criticalTags"
  by (simp add: criticalFactors_def criticalTags_def)

lemma computeRiskLevel_spec: "computeRiskLevel fs bp = riskLevelSpec fs bp"
proof -
  have "list_ex (\<lambda>f. f \<in> set criticalFactors) fs \<longleftrightarrow> set fs \<inter> criticalTags \<noteq> {}"
    by (auto simp: list_ex_iff critical_list_set)
  then show ?thesis
    by (simp add: computeRiskLevel_def riskLevelSpec_def negative_iff_not_positive)
qed

subsection \<open>The tags that can occur\<close>





subsection \<open>Evaluation on small numbers\<close>

lemmas number_defs = clamp_def mathMin_def mathMax_def ngt_def nge_def nle_def nsub_def
  infOfSign_def roundR_def truthyNum_def truthyStr_def presentGt_def presentLt_def isFinite_def

lemmas example_defs = dpNull_def dpZeroCounts_def dpNegSells_def dpSmallCap_def dpZeroStamp_def
  dpExample_def dpQuiet_def dpHotRisky_def dpWhale_def dpFresh_def dpDistressed_def dpTie_def
  dpRatio_def

lemma dbl_numeral: "numeral n < (2::int) ^ 53 \<Longrightarrow> dbl (numeral n) = numeral n"
  using dbl_int [of "numeral n"] by simp

lemma safe_None: "safe None d = d"
  by (simp add: safe_def)

lemma safe_Fin_0: "safe (Some (Fin 0)) d = 0"
  by (simp add: safe_def fl_0)

lemma safe_numeral: "numeral n < (2::int) ^ 53 \<Longrightarrow> safe (Some (Fin (numeral n))) d = numeral n"
  by (simp add: safe_def fl_numeral)

lemma safe_neg_numeral:
  "numeral n < (2::int) ^ 53 \<Longrightarrow> safe (Some (Fin (- numeral n))) d = - numeral n"
  by (simp add: safe_def fl_neg_numeral)

lemma fl_neg_1: "fl (- 1) = Fin (- 1)"
  using fl_int [of "- 1"] by simp

lemma safe_neg_1: "safe (Some (Fin (- 1))) d = - 1"
  by (simp add: safe_def fl_neg_1)

lemma dbl_dyadic:
  "\<bar>m\<bar> < 2 ^ 53 \<Longrightarrow> n \<le> 1074 \<Longrightarrow> dbl (of_int m / 2 ^ n) = of_int m / 2 ^ n"
proof -
  assume m: "\<bar>m\<bar> < 2 ^ 53" and n: "n \<le> 1074"
  have "(of_int m / 2 ^ n :: real) = of_int m * 2 powi (- int n)"
    by (simp add: power_int_minus divide_inverse)
  then show ?thesis
    using dbl_exact [of "of_int m / 2 ^ n" m "- int n"] m n by simp
qed

lemma fl_dyadic:
  "\<bar>m\<bar> < 2 ^ 53 \<Longrightarrow> n \<le> 1074 \<Longrightarrow> fl (of_int m / 2 ^ n) = Fin (of_int m / 2 ^ n)"
proof -
  assume m: "\<bar>m\<bar> < 2 ^ 53" and n: "n \<le> 1074"
  have "\<bar>of_int m :: real\<bar> \<le> 2 ^ 53"
    using m by (metis less_imp_le of_int_abs of_int_le_iff of_int_numeral of_int_power)
  also have "(2::real) ^ 53 \<le> 2 ^ 64"
    by (rule power_increasing) simp_all
  finally have "\<bar>of_int m :: real\<bar> \<le> 2 ^ 64" .
  moreover have "\<bar>of_int m / 2 ^ n :: real\<bar> \<le> \<bar>of_int m\<bar>"
    by (simp add: divide_le_eq mult_le_cancel_left1)
  ultimately have "\<bar>of_int m / 2 ^ n :: real\<bar> \<le> 2 ^ 64"
    by (rule order_trans [rotated])
  with dbl_dyadic [OF m n] show ?thesis
    by (rule fl_exact)
qed

lemma fl_halfs: "fl (1 / 2) = Fin (1 / 2)" "fl (3 / 4) = Fin (3 / 4)"
  using fl_dyadic [of 1 1] fl_dyadic [of 3 2] by simp_all

lemma safe_half: "safe (Some (Fin (1 / 2))) d = 1 / 2"
  by (simp add: safe_def fl_halfs)

lemmas read_simps = safe_None safe_Fin_0 safe_numeral safe_neg_numeral safe_neg_1 safe_half
  fl_0 fl_1 fl_neg_1 fl_numeral fl_neg_numeral fl_halfs

text \<open>A decimal literal between two doubles.\<close>

lemma lit_between:
  assumes "a \<le> c" and "c \<le> b" and "dbl a = a" and "dbl b = b" and "\<bar>c\<bar> \<le> 2 ^ 64"
  shows "\<exists>y. lit c = Fin y \<and> a \<le> y \<and> y \<le> b"
proof -
  have "dbl a \<le> dbl c" and "dbl c \<le> dbl b"
    using assms(1,2) by (simp_all only: dbl_mono)
  then show ?thesis
    using assms(3,4) lit_small [OF assms(5)] by simp
qed

subsection \<open>The analyzer on the example inputs\<close>

lemma top10_dpWhale: "computeTop10Pct dpWhale = Fin 60"
  by (simp add: computeTop10Pct_def example_defs read_simps)

lemma riskList_dpWhale:
  "riskList dpWhale = [low_liquidity, high_concentration, single_holder_majority,
     bonding_curve_risk, no_social_presence, no_website]"
  unfolding riskList_def firedTags_def top10_dpWhale
  by (simp add: checklistSpec_def fallbackTag_def
      firstHolderOver50_def number_defs example_defs read_simps)



lemma firedTags_dpQuiet: "firedTags dpQuiet = []"
  by (simp add: firedTags_def checklistSpec_def computeTop10Pct_def
      firstHolderOver50_def number_defs example_defs read_simps)

lemma riskList_dpHotRisky:
  "riskList dpHotRisky = [bonding_curve_risk, no_social_presence, no_website]"
  by (simp add: riskList_def firedTags_def checklistSpec_def fallbackTag_def computeTop10Pct_def
      firstHolderOver50_def number_defs example_defs read_simps)



lemma nlt_nmul_lit:
  assumes "0 \<le> s" and "0 \<le> c" and "c \<le> 1" and "s < b" and "dbl s = s" and "s \<le> 2 ^ 64"
  shows "nlt (nmul (Fin s) (lit c)) (Fin b)"
proof -
  obtain y where y: "lit c = Fin y" "0 \<le> y" "y \<le> 1"
    using lit_between [of 0 c 1] assms(2,3) dbl_0 dbl_1 by auto
  have "s * y \<le> s"
    using assms(1) y(3) by (simp add: mult_left_le)
  then have "dbl (s * y) \<le> s"
    using dbl_mono [of "s * y" s] assms(5) by simp
  moreover have "\<bar>s * y\<bar> \<le> 2 ^ 64"
    using assms(1,6) y(2) \<open>s * y \<le> s\<close> by simp
  ultimately show ?thesis
    using assms(4) by (simp add: y(1) fl_small)
qed

lemma organic_dpExample: "nlt (nmul (Fin 20) (lit 0.8)) (Fin 80)"
  by (rule nlt_nmul_lit) (simp_all add: dbl_numeral)

lemma firedTags_dpExample:
  "firedTags dpExample = [no_website, healthy_distribution, verified_socials, organic_volume,
     growing_holders, strong_community]"
  using organic_dpExample
  by (simp add: firedTags_def checklistSpec_def computeTop10Pct_def
      firstHolderOver50_def number_defs example_defs read_simps)

lemma riskList_dpExample:
  "riskList dpExample = [no_website, healthy_distribution, verified_socials, organic_volume,
     growing_holders, strong_community]"
  by (simp add: riskList_def firedTags_dpExample)



lemma buyPressure_dpHotRisky: "computeBuyPressure dpHotRisky = Fin 75"
  by (simp add: computeBuyPressure_def number_defs example_defs read_simps)

lemma buyPressure_dpNegSells: "computeBuyPressure dpNegSells = NaN"
  unfolding computeBuyPressure_NaN_iff by (simp add: example_defs read_simps)

lemma dbl_80_101: "dbl (80 / 101) = 7134415251279994 / 2 ^ 53"
  using dbl_eval [of "- 1" "80 / 101"] by (simp add: rne_def power_int_minus)

lemma dbl_80_101_100: "dbl (7134415251279994 / 2 ^ 53 * 100) = 5573761915062495 / 2 ^ 46"
  using dbl_eval [of 6 "7134415251279994 / 2 ^ 53 * 100"] by (simp add: rne_def power_int_minus)

lemma buyPressure_dpExample: "computeBuyPressure dpExample = Fin 79"
proof -
  have b: "safe (buys24h dpExample) 0 = 80" and s: "safe (sells24h dpExample) 0 = 20"
    by (simp_all add: example_defs read_simps)
  have n: "nadd (Fin 80) (Fin 20) = Fin 100" and d: "nadd (Fin 100) (Fin 1) = Fin 101"
    by (simp_all add: read_simps)
  have "fl (80 / 101) = Fin (dbl (80 / 101))"
    by (rule fl_small) simp
  then have q: "ndiv (Fin 80) (Fin 101) = Fin (7134415251279994 / 2 ^ 53)"
    unfolding dbl_80_101 by simp
  have "fl (7134415251279994 / 2 ^ 53 * 100) = Fin (dbl (7134415251279994 / 2 ^ 53 * 100))"
    by (rule fl_small) simp
  then have p: "nmul (Fin (7134415251279994 / 2 ^ 53)) (Fin 100) = Fin (5573761915062495 / 2 ^ 46)"
    unfolding dbl_80_101_100 nmul.simps .
  have r: "mathRound (Fin (5573761915062495 / 2 ^ 46)) = Fin 79"
    by (simp add: roundR_def)
  show ?thesis
    unfolding computeBuyPressure_def Let_def b s n d q p r by (simp add: clamp_Fin)
qed


text \<open>Volatility.\<close>

lemma fl_between:
  assumes "a \<le> x" and "x \<le> b" and "dbl a = a" and "dbl b = b" and "\<bar>x\<bar> \<le> 2 ^ 64"
  shows "\<exists>y. fl x = Fin y \<and> a \<le> y \<and> y \<le> b"
  using lit_between [OF assms] by (simp add: lit_def)

lemma lit_0_05: "\<exists>y. lit 0.05 = Fin y \<and> 1 / 32 \<le> y \<and> y \<le> 1 / 16"
  using dbl_dyadic [of 1 5] dbl_dyadic [of 1 4] by (intro lit_between) simp_all

lemma lit_0_2: "\<exists>y. lit 0.2 = Fin y \<and> 1 / 8 \<le> y \<and> y \<le> 1 / 4"
  using dbl_dyadic [of 1 3] dbl_dyadic [of 1 2] by (intro lit_between) simp_all

lemma lit_0_6: "\<exists>y. lit 0.6 = Fin y \<and> 1 / 2 \<le> y \<and> y \<le> 1"
  using dbl_dyadic [of 1 1] dbl_1 by (intro lit_between) simp_all

lemma lit_0_4: "\<exists>y. lit 0.4 = Fin y \<and> 1 / 4 \<le> y \<and> y \<le> 1 / 2"
  using dbl_dyadic [of 1 2] dbl_dyadic [of 1 1] by (intro lit_between) simp_all

lemma bands_of_0: "volatilityBands (Fin 0) = Fin 10"
proof -
  obtain y where y: "lit 0.05 = Fin y" "1 / 32 \<le> y"
    using lit_0_05 by blast
  show ?thesis
    unfolding volatilityBands_def y(1) using y(2) by (simp add: read_simps clamp_Fin roundR_def)
qed

lemma bands_of_1: "volatilityBands (Fin 1) = Fin 95"
proof -
  obtain y where y: "lit 0.05 = Fin y" "y \<le> 1 / 16"
    using lit_0_05 by blast
  obtain z where z: "lit 0.2 = Fin z" "z \<le> 1 / 4"
    using lit_0_2 by blast
  show ?thesis
    unfolding volatilityBands_def y(1) z(1) lit_half using y(2) z(2)
    by (simp add: read_simps clamp_Fin roundR_def nsub_def)
qed

lemma bands_of_half: "volatilityBands (Fin (1 / 2)) = Fin 75"
proof -
  obtain y where y: "lit 0.05 = Fin y" "y \<le> 1 / 16"
    using lit_0_05 by blast
  obtain z where z: "lit 0.2 = Fin z" "z \<le> 1 / 4"
    using lit_0_2 by blast
  show ?thesis
    unfolding volatilityBands_def y(1) z(1) lit_half using y(2) z(2)
    by (simp add: read_simps clamp_Fin roundR_def nsub_def)
qed

lemma bands_of_fifth: "volatilityBands (fl (1 / 5)) = Fin 50"
proof -
  obtain y where y: "lit 0.05 = Fin y" "y \<le> 1 / 16"
    using lit_0_05 by blast
  obtain z where z: "lit 0.2 = Fin z" "1 / 8 \<le> z" "z \<le> 1 / 4"
    using lit_0_2 by blast
  have f: "fl (1 / 5) = Fin z"
    using z(1) by (simp add: lit_def)
  show ?thesis
    unfolding volatilityBands_def y(1) z(1) f lit_half using y(2) z(2,3)
    by (simp add: read_simps clamp_Fin roundR_def nsub_def)
qed

lemma volatility_dpNull: "computeVolatilityScore dpNull = Fin 10"
  unfolding computeVolatilityScore_eq
  by (simp add: example_defs read_simps bands_of_0)

lemma volatility_dpHotRisky: "computeVolatilityScore dpHotRisky = Fin 10"
  unfolding computeVolatilityScore_eq
  by (simp add: example_defs read_simps bands_of_0)

lemma volatility_dpSmallCap: "computeVolatilityScore dpSmallCap = Fin 95"
  unfolding computeVolatilityScore_eq
  by (simp add: example_defs read_simps bands_of_1)

lemma floored_dpSmallCap: "volatilityFloored dpSmallCap = Fin 75"
  unfolding volatilityFloored_def
  by (simp add: example_defs read_simps bands_of_half)

lemma volatility_dpExample: "computeVolatilityScore dpExample = Fin 50"
proof -
  have v: "safe (volume24h dpExample) 0 = 1000000" and m: "safe (marketCap dpExample) 1 = 5000000"
    by (simp_all add: example_defs read_simps)
  have "ndiv (Fin 1000000) (Fin 5000000) = fl (1 / 5)"
    by simp
  then show ?thesis
    unfolding computeVolatilityScore_eq v m by (simp only: bands_of_fifth) simp
qed

text \<open>A volume of 4.1 on a market cap of 98.4, step by step.\<close>

lemma dbl_4_1: "dbl 4.1 = 4616189618054758 / 2 ^ 50"
  using dbl_eval [of 2 "4.1"] by (simp add: rne_def power_int_minus)

lemma dbl_98_4: "dbl 98.4 = 6924284427082138 / 2 ^ 46"
  using dbl_eval [of 6 "98.4"] by (simp add: rne_def power_int_minus)

lemma dbl_ratio: "dbl (4616189618054758 / 2 ^ 50 / (6924284427082138 / 2 ^ 46))
    = 6004799503160660 / 2 ^ 57"
  using dbl_eval [of "- 5" "4616189618054758 / 2 ^ 50 / (6924284427082138 / 2 ^ 46)"]
  by (simp add: rne_def power_int_minus)

lemma dbl_0_05: "dbl 0.05 = 7205759403792794 / 2 ^ 57"
  using dbl_eval [of "- 5" "0.05"] by (simp add: rne_def power_int_minus)

lemma dbl_ratio_300: "dbl (6004799503160660 / 2 ^ 57 * 300) = 7036874417766398 / 2 ^ 49"
  using dbl_eval [of 3 "6004799503160660 / 2 ^ 57 * 300"] by (simp add: rne_def power_int_minus)

lemma dbl_ratio_sum: "dbl (10 + 7036874417766398 / 2 ^ 49) = 6333186975989759 / 2 ^ 48"
  using dbl_eval [of 4 "10 + 7036874417766398 / 2 ^ 49"] by (simp add: rne_def power_int_minus)

lemma fl_eval: "dbl x = y \<Longrightarrow> \<bar>x\<bar> \<le> 2 ^ 64 \<Longrightarrow> fl x = Fin y"
  by (simp add: fl_small)

lemma volatility_dpRatio: "computeVolatilityScore dpRatio = Fin 22"
proof -
  have "fl 4.1 = Fin (4616189618054758 / 2 ^ 50)"
    using dbl_4_1 by (rule fl_eval) simp
  then have v: "safe (volume24h dpRatio) 0 = 4616189618054758 / 2 ^ 50"
    by (simp add: dpRatio_def dpNull_def safe_def)
  have "fl 98.4 = Fin (6924284427082138 / 2 ^ 46)"
    using dbl_98_4 by (rule fl_eval) simp
  then have m: "safe (marketCap dpRatio) 1 = 6924284427082138 / 2 ^ 46"
    by (simp add: dpRatio_def dpNull_def safe_def)
  have "fl (4616189618054758 / 2 ^ 50 / (6924284427082138 / 2 ^ 46))
      = Fin (6004799503160660 / 2 ^ 57)"
    using dbl_ratio by (rule fl_eval) simp
  then have r: "ndiv (Fin (4616189618054758 / 2 ^ 50)) (Fin (6924284427082138 / 2 ^ 46))
      = Fin (6004799503160660 / 2 ^ 57)"
    by simp
  have l: "lit 0.05 = Fin (7205759403792794 / 2 ^ 57)"
    unfolding lit_def using dbl_0_05 by (rule fl_eval) simp
  have "fl (6004799503160660 / 2 ^ 57 * 300) = Fin (7036874417766398 / 2 ^ 49)"
    using dbl_ratio_300 by (rule fl_eval) simp
  then have t: "nmul (Fin (6004799503160660 / 2 ^ 57)) (Fin 300) = Fin (7036874417766398 / 2 ^ 49)"
    unfolding nmul.simps .
  have "fl (10 + 7036874417766398 / 2 ^ 49) = Fin (6333186975989759 / 2 ^ 48)"
    using dbl_ratio_sum by (rule fl_eval) simp
  then have s: "nadd (Fin 10) (Fin (7036874417766398 / 2 ^ 49)) = Fin (6333186975989759 / 2 ^ 48)"
    unfolding nadd.simps .
  have c: "nlt (Fin (6004799503160660 / 2 ^ 57)) (Fin (7205759403792794 / 2 ^ 57))"
    by simp
  have d: "mathRound (Fin (6333186975989759 / 2 ^ 48)) = Fin 22"
    by (simp add: roundR_def)
  have "\<not> 6924284427082138 / 2 ^ 46 \<le> (0::real)"
    by simp
  then show ?thesis
    unfolding computeVolatilityScore_eq v m r volatilityBands_def l
    by (simp only: if_False c if_True t s d) (simp add: clamp_Fin)
qed

text \<open>Trend and liquidity.\<close>

lemma combined_up:
  assumes "0 \<le> a" and "0 \<le> b" and "a \<le> 1000" and "b \<le> 1000"
    and "dbl (a / 2) = a / 2" and "dbl (b / 4) = b / 4" and "4 \<le> a / 2 + b / 4"
  shows "ngt (nadd (nmul (Fin a) (lit 0.6)) (nmul (Fin b) (lit 0.4))) (Fin 3)"
proof -
  obtain y where y: "lit 0.6 = Fin y" "1 / 2 \<le> y" "y \<le> 1"
    using lit_0_6 by blast
  obtain z where z: "lit 0.4 = Fin z" "1 / 4 \<le> z" "z \<le> 1 / 2"
    using lit_0_4 by blast
  have "a / 2 \<le> a * y" and "a * y \<le> a"
    using mult_left_mono [of "1 / 2" y a] mult_left_mono [of y 1 a] assms(1) y(2,3) by simp_all
  then have p: "a / 2 \<le> dbl (a * y)" "dbl (a * y) \<le> dbl 1000" "\<bar>a * y\<bar> \<le> 2 ^ 64"
    using dbl_mono [of "a / 2" "a * y"] dbl_mono [of "a * y" 1000] assms(1,3,5) y(2)
    by simp_all
  have "b / 4 \<le> b * z" and "b * z \<le> b"
    using mult_left_mono [of "1 / 4" z b] mult_left_mono [of z 1 b] assms(2) z(2,3) by simp_all
  then have q: "b / 4 \<le> dbl (b * z)" "dbl (b * z) \<le> dbl 1000" "\<bar>b * z\<bar> \<le> 2 ^ 64"
    using dbl_mono [of "b / 4" "b * z"] dbl_mono [of "b * z" 1000] assms(2,4,6) z(2)
    by simp_all
  have k: "dbl 1000 = 1000" "dbl 4 = 4"
    by (simp_all add: dbl_numeral)
  have "4 \<le> dbl (a * y) + dbl (b * z)"
    using p(1) q(1) assms(7) by linarith
  then have "4 \<le> dbl (dbl (a * y) + dbl (b * z))"
    using dbl_mono [of 4 "dbl (a * y) + dbl (b * z)"] k by simp
  moreover have "\<bar>dbl (a * y) + dbl (b * z)\<bar> \<le> 2 ^ 64"
    using p(1,2) q(1,2) k assms(1,2) by simp
  ultimately show ?thesis
    unfolding y(1) z(1) ngt_def nmul.simps using p(3) q(3) by (simp add: fl_small)
qed

lemma halves: "dbl 5 = 5" "dbl 0 = 0" "dbl 2 = 2"
  by (simp_all add: dbl_numeral dbl_0)

lemma trend_dpHotRisky: "computeTrendDirection dpHotRisky = Up"
proof -
  have "ngt (nadd (nmul (Fin 10) (lit 0.6)) (nmul (Fin 0) (lit 0.4))) (Fin 3)"
    by (rule combined_up) (simp_all add: halves)
  then show ?thesis
    unfolding computeTrendDirection_def Let_def
    by (simp add: dpHotRisky_def dpNull_def read_simps)
qed

lemma trend_dpExample: "computeTrendDirection dpExample = Up"
proof -
  have "ngt (nadd (nmul (Fin 4) (lit 0.6)) (nmul (Fin 8) (lit 0.4))) (Fin 3)"
    by (rule combined_up) (simp_all add: halves)
  then show ?thesis
    unfolding computeTrendDirection_def Let_def
    by (simp add: dpExample_def dpNull_def read_simps)
qed

lemma trend_dpNull: "computeTrendDirection dpNull = Sideways"
  by (simp add: computeTrendDirection_def dpNull_def read_simps)

lemma trend_dpZeroCounts: "computeTrendDirection dpZeroCounts = Sideways"
  by (simp add: computeTrendDirection_def dpZeroCounts_def dpNull_def read_simps)

lemma liquidity_dpHotRisky: "computeLiquidityDepth dpHotRisky = Deep"
  by (simp add: computeLiquidityDepth_def dpHotRisky_def dpNull_def read_simps)

lemma liquidity_dpExample: "computeLiquidityDepth dpExample = Deep"
  by (simp add: computeLiquidityDepth_def dpExample_def dpNull_def read_simps)

subsection \<open>Buy pressure and the formula over the reals\<close>



subsection \<open>Further facts on what analyze returns\<close>

lemma safe_double: "isDouble x \<Longrightarrow> safe (Some (Fin x)) d = x"
  by (simp add: isDouble_def safe_def)

lemma top10_not_NaN: "computeTop10Pct dp \<noteq> NaN"
proof -
  have "foldl (\<lambda>sum h. nadd sum (Fin (safe (Some (pct h)) 0))) a hs \<noteq> NaN" if "a \<noteq> NaN"
    for a and hs :: "Holder list"
    using that by (induction hs arbitrary: a) (simp_all add: nadd_Fin_NaN')
  then show ?thesis
    by (simp add: computeTop10Pct_def split: option.splits number.splits)
qed

lemma rounded_pct_not_NaN: "t \<noteq> NaN \<Longrightarrow> ndiv (mathRound (nmul t (Fin 10))) (Fin 10) \<noteq> NaN"
  by (cases t) (simp_all add: infOfSign_def fl_def)

lemma volume_profile_guard: "safe (marketCap dp) 1 \<le> 0 \<Longrightarrow> computeVolumeProfile dp = Dead"
  by (simp add: computeVolumeProfile_def)

lemma stale_zero: "300000 \<le> now \<Longrightarrow> \<not> nlt (nsub (Fin now) (Fin 0)) (Fin 300000)"
proof -
  assume n: "300000 \<le> now"
  have "dbl 300000 \<le> dbl now"
    using n by (rule dbl_mono)
  then have d: "300000 \<le> dbl now"
    by (simp add: dbl_numeral)
  then have "fl now \<noteq> NegInf"
    by (simp add: fl_def)
  then show ?thesis
    using d fl_cases [of now] by (auto simp: nsub_def)
qed

section \<open>The claims\<close>

subsection \<open>C1: the trend of a DataPoint with no price change and no activity\<close>

text \<open>
  C1 as stated does not hold: with both price changes absent and both counts zero, the
  trend returned by \<open>analyze\<close> is sideways, not down.
\<close>

theorem trend_fallback_not_down:
  "priceChange1h dpZeroCounts = None \<and> priceChange24h dpZeroCounts = None \<and>
   buys24h dpZeroCounts = Some (Fin 0) \<and> sells24h dpZeroCounts = Some (Fin 0) \<and>
   map_sum id (trendDirection \<circ> quant) (analyze 1000 dpZeroCounts) = Inr Sideways"
proof -
  obtain r where r: "analyze 1000 dpZeroCounts = Inr r"
    using analyze_returns by blast
  show ?thesis
    using r analyze_fields(5) [OF r] trend_dpZeroCounts by (simp add: dpZeroCounts_def dpNull_def)
qed

text \<open>
  C1, amended. For every DataPoint in which both \<open>priceChange1h\<close> and \<open>priceChange24h\<close>
  are absent and \<open>buys24h\<close> and \<open>sells24h\<close> are both zero or absent, the trend direction
  returned by \<open>analyze\<close> is sideways: the fallback returns sideways when there is no
  activity, before any ratio is formed.
\<close>

theorem trend_fallback_sideways:
  assumes "priceChange1h dp = None" and "priceChange24h dp = None"
    and "buys24h dp = None \<or> buys24h dp = Some (Fin 0)"
    and "sells24h dp = None \<or> sells24h dp = Some (Fin 0)"
  shows "\<exists>r. analyze now dp = Inr r \<and> trendDirection (quant r) = Sideways"
proof -
  obtain r where r: "analyze now dp = Inr r"
    using analyze_returns by blast
  have "safe (buys24h dp) 0 = 0" and "safe (sells24h dp) 0 = 0"
    using assms(3,4) by (auto simp: safe_None safe_Fin_0)
  then have "computeTrendDirection dp = Sideways"
    using assms(1,2) by (simp add: computeTrendDirection_def fl_0)
  then show ?thesis
    using r analyze_fields(5) [OF r] by simp
qed

theorem trend_fallback_sideways_witness:
  "priceChange1h dpNull = None \<and> priceChange24h dpNull = None \<and>
   buys24h dpNull = None \<and> sells24h dpNull = None \<and>
   (\<exists>r. analyze 1000 dpNull = Inr r \<and> trendDirection (quant r) = Sideways)"
  using trend_fallback_sideways [of dpNull 1000] by (simp add: dpNull_def)

subsection \<open>C2: the shape of the risk-factor list\<close>

text \<open>
  C2. For every DataPoint, the \<open>riskFactors\<close> list returned by \<open>analyze\<close> has no duplicate
  tag, keeps the order of the checklist (it is the first eight of the tags whose condition
  holds, in the order of the table, when there is one), and has between 1 and 8 tags. When
  no condition of the checklist holds it is the one fallback tag, \<open>organic_volume\<close> if
  liquidity is at least 50,000 and \<open>low_liquidity\<close> otherwise; the liquidity is then at
  least 50,000, as the first condition of the checklist is false.
\<close>

theorem risk_factors_shape:
  "\<exists>r. analyze now dp = Inr r \<and>
        distinct (riskFactors (quant r)) \<and>
        subseq (riskFactors (quant r)) checklistTags \<and>
        1 \<le> length (riskFactors (quant r)) \<and> length (riskFactors (quant r)) \<le> 8 \<and>
        (firedTags dp \<noteq> [] \<longrightarrow> riskFactors (quant r) = take 8 (firedTags dp)) \<and>
        ((\<forall>p \<in> set (checklistSpec dp (computeTop10Pct dp)). \<not> fst p) \<longrightarrow>
           riskFactors (quant r) =
             [if safe (liquidity dp) 0 \<ge> 50000 then organic_volume else low_liquidity] \<and>
           safe (liquidity dp) 0 \<ge> 50000)"
proof -
  obtain r where r: "analyze now dp = Inr r"
    using analyze_returns by blast
  have rf: "riskFactors (quant r) = riskList dp"
    using analyze_fields(1) [OF r] .
  have sub: "subseq (firedTags dp) checklistTags"
    unfolding firedTags_def
    using subseq_collect [of "checklistSpec dp (computeTop10Pct dp)"]
    by (simp only: checklistSpec_tags)
  have dis: "distinct (firedTags dp)"
    unfolding firedTags_def
    by (rule distinct_collect) (simp only: checklistSpec_tags distinct_checklistTags)
  have fb: "subseq [fallbackTag dp] checklistTags"
    by (simp add: fallbackTag_def checklistTags_def)
  have 1: "distinct (riskList dp)"
    using dis by (simp add: riskList_def)
  have "subseq (take 8 xs) xs" for xs :: "RiskFactor list"
    using list_emb_prefix [of "(=)" "take 8 xs" "take 8 xs" "drop 8 xs"] by simp
  then have "subseq (riskList dp) (if firedTags dp = [] then [fallbackTag dp] else firedTags dp)"
    unfolding riskList_def .
  then have 2: "subseq (riskList dp) checklistTags"
    using sub fb by (auto intro: subseq_order.order_trans split: if_splits)
  have 3: "1 \<le> length (riskList dp) \<and> length (riskList dp) \<le> 8"
    by (cases "firedTags dp") (simp_all add: riskList_def)
  have 4: "firedTags dp \<noteq> [] \<longrightarrow> riskList dp = take 8 (firedTags dp)"
    by (simp add: riskList_def)
  have 5: "(\<forall>p \<in> set (checklistSpec dp (computeTop10Pct dp)). \<not> fst p) \<longrightarrow>
      riskList dp = [if safe (liquidity dp) 0 \<ge> 50000 then organic_volume else low_liquidity]
      \<and> safe (liquidity dp) 0 \<ge> 50000"
  proof
    assume a: "\<forall>p \<in> set (checklistSpec dp (computeTop10Pct dp)). \<not> fst p"
    then have "firedTags dp = []"
      by (simp only: firedTags_def collect_Nil_iff)
    then have "riskList dp = [fallbackTag dp]"
      by (simp add: riskList_def)
    moreover have "\<not> safe (liquidity dp) 0 < 50000"
      using a by (simp add: checklistSpec_def)
    ultimately show "riskList dp =
        [if safe (liquidity dp) 0 \<ge> 50000 then organic_volume else low_liquidity]
        \<and> safe (liquidity dp) 0 \<ge> 50000"
      by (simp add: fallbackTag_def)
  qed
  show ?thesis
    using r 1 2 3 4 5 unfolding rf [symmetric] by blast
qed

theorem risk_factors_shape_witness:
  "firedTags dpQuiet = [] \<and>
   (\<exists>r. analyze 1000 dpQuiet = Inr r \<and> riskFactors (quant r) = [organic_volume]) \<and>
   firedTags dpExample \<noteq> [] \<and>
   (\<exists>r. analyze 1000 dpExample = Inr r \<and>
        riskFactors (quant r) = [no_website, healthy_distribution, verified_socials,
          organic_volume, growing_holders, strong_community])"
proof -
  have q: "\<forall>p \<in> set (checklistSpec dpQuiet (computeTop10Pct dpQuiet)). \<not> fst p"
    using firedTags_dpQuiet by (simp only: firedTags_def collect_Nil_iff)
  have l: "safe (liquidity dpQuiet) 0 \<ge> 50000"
    by (simp add: example_defs read_simps)
  have e: "firedTags dpExample \<noteq> []"
    by (simp add: firedTags_dpExample)
  show ?thesis
    using risk_factors_shape [of 1000 dpQuiet] risk_factors_shape [of 1000 dpExample] q l e
    by (auto simp: firedTags_dpQuiet firedTags_dpExample)
qed

subsection \<open>C3: the risk level\<close>

text \<open>
  C3. For every DataPoint, with \<open>negCount\<close> the number of returned risk factors in the
  negative subset (the 20 tags that are not among the eight positive ones), the risk level
  is critical if a critical tag (\<open>rug_pattern\<close>, \<open>honeypot_risk\<close>,
  \<open>single_holder_majority\<close>) is present or \<open>negCount \<ge> 5\<close>; otherwise high if
  \<open>negCount \<ge> 3\<close> or \<open>buyPressure < 25\<close>; otherwise medium if \<open>negCount \<ge> 1\<close>;
  otherwise low. The first rule that matches decides.
\<close>

theorem risk_level_decision:
  "\<exists>r. analyze now dp = Inr r \<and>
        riskLevel (quant r) = riskLevelSpec (riskFactors (quant r)) (buyPressure (quant r)) \<and>
        length negativeFactors = 20 \<and> distinct negativeFactors \<and>
        set negativeFactors = - positiveTags"
proof -
  obtain r where r: "analyze now dp = Inr r"
    using analyze_returns by blast
  have "set negativeFactors = - positiveTags"
    using negative_iff_not_positive by blast
  then show ?thesis
    using r analyze_fields(6) [OF r] negativeFactors_twenty
    by (simp add: computeRiskLevel_spec)
qed

theorem risk_level_decision_witness:
  "\<exists>r. analyze 1000 dpWhale = Inr r \<and> riskLevel (quant r) = Critical"
proof -
  obtain r where r: "analyze 1000 dpWhale = Inr r"
    and l: "riskLevel (quant r) = riskLevelSpec (riskFactors (quant r)) (buyPressure (quant r))"
    using risk_level_decision [of 1000 dpWhale] by blast
  have "riskFactors (quant r) = riskList dpWhale"
    using analyze_fields(1) [OF r] .
  then have "riskLevel (quant r) = Critical"
    using l by (simp add: riskList_dpWhale riskLevelSpec_def criticalTags_def positiveTags_def)
  with r show ?thesis by simp
qed

subsection \<open>C4: the volatility ratio\<close>

text \<open>
  C4 as stated does not hold: a market cap of 0.5 with a 24h volume of 0.5 is not raised
  to 1. The ratio is \<open>0.5 / 0.5 = 1\<close> and the score is 95; with the denominator
  \<open>max(marketCap, 1)\<close> the ratio would be 0.5 and the score 75.
\<close>

theorem small_market_cap_not_floored:
  "marketCap dpSmallCap = Some (Fin (1 / 2)) \<and> volume24h dpSmallCap = Some (Fin (1 / 2)) \<and>
   map_sum id (volatilityScore \<circ> quant) (analyze 1000 dpSmallCap) = Inr (Fin 95) \<and>
   volatilityFloored dpSmallCap = Fin 75"
proof -
  obtain r where r: "analyze 1000 dpSmallCap = Inr r"
    using analyze_returns by blast
  show ?thesis
    using r analyze_fields(3) [OF r]
    by (simp add: volatility_dpSmallCap floored_dpSmallCap) (simp add: example_defs)
qed

text \<open>
  C4, amended. For every DataPoint, the volatility ratio is the 24h volume divided by the
  market cap, a division of doubles, where a market cap that is absent (null or not finite)
  counts as 1 and a present one is used as it is; the volatility score is exactly 50 when
  the market cap is \<open>\<le> 0\<close>, and otherwise the band value of that ratio, in every case an
  integer in \<open>[10, 95]\<close>. A present market cap strictly between 0 and 1 is not raised
  to 1. With a volume of 4.1 on a market cap of 98.4 the score is 22: the ratio and the
  product by 300 are rounded, and \<open>10 + ratio * 300\<close> is \<open>22.499999999999996\<close>.
\<close>

theorem volatility_ratio:
  "\<exists>r. analyze now dp = Inr r \<and>
        volatilityScore (quant r) =
          (if safe (marketCap dp) 1 \<le> 0 then Fin 50
           else volatilityBands
                  (ndiv (Fin (safe (volume24h dp) 0)) (Fin (safe (marketCap dp) 1)))) \<and>
        (unusable (marketCap dp) \<longrightarrow> safe (marketCap dp) 1 = 1) \<and>
        (\<forall>m. marketCap dp = Some (Fin m) \<and> isDouble m \<longrightarrow>
           safe (marketCap dp) 1 = m \<and>
           (m \<le> 0 \<longrightarrow> volatilityScore (quant r) = Fin 50) \<and>
           (0 < m \<longrightarrow>
              volatilityScore (quant r) =
                volatilityBands (ndiv (Fin (safe (volume24h dp) 0)) (Fin m)))) \<and>
        isIntIn 10 95 (volatilityScore (quant r))"
proof -
  obtain r where r: "analyze now dp = Inr r"
    using analyze_returns by blast
  have v: "volatilityScore (quant r) = computeVolatilityScore dp"
    using analyze_fields(3) [OF r] .
  have 1: "unusable (marketCap dp) \<longrightarrow> safe (marketCap dp) 1 = 1"
    by (simp add: safe_unusable)
  have 2: "\<forall>m. marketCap dp = Some (Fin m) \<and> isDouble m \<longrightarrow>
           safe (marketCap dp) 1 = m \<and>
           (m \<le> 0 \<longrightarrow> computeVolatilityScore dp = Fin 50) \<and>
           (0 < m \<longrightarrow>
              computeVolatilityScore dp =
                volatilityBands (ndiv (Fin (safe (volume24h dp) 0)) (Fin m)))"
    by (simp add: computeVolatilityScore_eq safe_double)
  show ?thesis
    using r 1 2 computeVolatilityScore_int [of dp] computeVolatilityScore_eq [of dp]
    unfolding v [symmetric] by blast
qed

theorem volatility_ratio_witness:
  "unusable (marketCap dpNull) \<and>
   (\<exists>r. analyze 1000 dpNull = Inr r \<and> volatilityScore (quant r) = Fin 10) \<and>
   marketCap dpSmallCap = Some (Fin (1 / 2)) \<and> isDouble (1 / 2) \<and> (0::real) < 1 / 2 \<and>
   (\<exists>r. analyze 1000 dpSmallCap = Inr r \<and> volatilityScore (quant r) = Fin 95) \<and>
   (\<exists>r. analyze 1000 dpRatio = Inr r \<and> volatilityScore (quant r) = Fin 22)"
proof -
  have e: "computeVolatilityScore dp =
      (if safe (marketCap dp) 1 \<le> 0 then Fin 50
       else volatilityBands
              (ndiv (Fin (safe (volume24h dp) 0)) (Fin (safe (marketCap dp) 1))))" for dp
    by (rule computeVolatilityScore_eq)
  have "unusable (marketCap dpNull)" and "marketCap dpSmallCap = Some (Fin (1 / 2))"
    and "isDouble (1 / 2)" and "(0::real) < 1 / 2"
    by (simp_all add: unusable_def isDouble_def example_defs read_simps)
  moreover have "\<exists>r. analyze 1000 dpNull = Inr r \<and> volatilityScore (quant r) = Fin 10"
    using volatility_ratio [of 1000 dpNull]
    unfolding e [symmetric] volatility_dpNull by blast
  moreover have "\<exists>r. analyze 1000 dpSmallCap = Inr r \<and> volatilityScore (quant r) = Fin 95"
    using volatility_ratio [of 1000 dpSmallCap]
    unfolding e [symmetric] volatility_dpSmallCap by blast
  moreover have "\<exists>r. analyze 1000 dpRatio = Inr r \<and> volatilityScore (quant r) = Fin 22"
    using volatility_ratio [of 1000 dpRatio]
    unfolding e [symmetric] volatility_dpRatio by blast
  ultimately show ?thesis
    by (simp only: simp_thms)
qed

subsection \<open>C5: the timestamp of the snapshot\<close>

text \<open>
  C5 as stated does not hold at every moment of analysis: a capture timestamp of 0 is
  present and, when the clock reads 1000, one second old, yet the snapshot carries the
  clock's 1000 and not the DataPoint's 0.
\<close>

theorem zero_timestamp_restamped:
  "snapshotAt dpZeroStamp = Some (Fin 0) \<and>
   nlt (nsub (Fin 1000) (Fin 0)) (Fin 300000) \<and>
   map_sum id (snap_snapshotAt \<circ> snapshot) (analyze 1000 dpZeroStamp) = Inr (Fin 1000)"
proof -
  obtain r where r: "analyze 1000 dpZeroStamp = Inr r"
    using analyze_returns by blast
  show ?thesis
    using r analyze_fields(9) [OF r]
    by (simp add: dpZeroStamp_def dpNull_def truthyNum_def nsub_def read_simps)
qed

text \<open>
  C5, amended. For every DataPoint and every moment of analysis, the returned snapshot's
  \<open>snapshotAt\<close> is the DataPoint's own capture timestamp when that timestamp is present,
  not zero, and less than 300,000 ms old relative to the moment of analysis, and is the
  current time in every other case; stale input is never rejected, only restamped. When
  the clock reads at least 300,000 a zero timestamp is stale anyway, and the condition
  that it is not zero can be dropped.
\<close>

theorem snapshot_timestamp:
  "\<exists>r. analyze now dp = Inr r \<and>
        snap_snapshotAt (snapshot r) =
          (case snapshotAt dp of
             None \<Rightarrow> Fin now
           | Some t \<Rightarrow>
               if t \<noteq> Fin 0 \<and> nlt (nsub (Fin now) t) (Fin 300000) then t else Fin now) \<and>
        (300000 \<le> now \<longrightarrow>
           snap_snapshotAt (snapshot r) =
             (case snapshotAt dp of
                None \<Rightarrow> Fin now
              | Some t \<Rightarrow> if nlt (nsub (Fin now) t) (Fin 300000) then t else Fin now))"
proof -
  obtain r where r: "analyze now dp = Inr r"
    using analyze_returns by blast
  have "nlt (nsub (Fin now) NaN) (Fin 300000) = False"
    by (simp add: nsub_def)
  moreover have "300000 \<le> now \<longrightarrow> nlt (nsub (Fin now) (Fin 0)) (Fin 300000) = False"
    using stale_zero by simp
  ultimately show ?thesis
    using r analyze_fields(9) [OF r]
    by (auto simp: truthyNum_def split: option.splits)
qed

theorem snapshot_timestamp_witness:
  "(300000 :: real) \<le> 1762000060000 \<and>
   (\<exists>r. analyze 1762000060000 dpFresh = Inr r \<and>
        snap_snapshotAt (snapshot r) = Fin 1762000000000) \<and>
   (\<exists>r. analyze 1762000300000 dpFresh = Inr r \<and>
        snap_snapshotAt (snapshot r) = Fin 1762000300000) \<and>
   (\<exists>r. analyze 1762000300000 dpNull = Inr r \<and>
        snap_snapshotAt (snapshot r) = Fin 1762000300000)"
  using snapshot_timestamp [of 1762000060000 dpFresh]
    snapshot_timestamp [of 1762000300000 dpFresh]
    snapshot_timestamp [of 1762000300000 dpNull]
  by (simp add: dpFresh_def dpNull_def nsub_def read_simps)

subsection \<open>C6: the sentiment\<close>

text \<open>
  C6. For every DataPoint, the sentiment is bearish exactly when the risk level is critical
  or \<open>score < 35\<close>; otherwise bullish exactly when \<open>score > 65\<close> and the risk level is
  not high; otherwise neutral. In particular it is never bullish when the risk level is
  high or critical.
\<close>

theorem sentiment_decision:
  "\<exists>r. analyze now dp = Inr r \<and>
        (sentiment r = Bearish \<longleftrightarrow>
           riskLevel (quant r) = Critical \<or> nlt (score r) (Fin 35)) \<and>
        (sentiment r = Bullish \<longleftrightarrow>
           \<not> (riskLevel (quant r) = Critical \<or> nlt (score r) (Fin 35)) \<and>
           ngt (score r) (Fin 65) \<and> riskLevel (quant r) \<noteq> High) \<and>
        (sentiment r = Neutral \<longleftrightarrow>
           \<not> (riskLevel (quant r) = Critical \<or> nlt (score r) (Fin 35)) \<and>
           \<not> (ngt (score r) (Fin 65) \<and> riskLevel (quant r) \<noteq> High)) \<and>
        (riskLevel (quant r) = High \<or> riskLevel (quant r) = Critical \<longrightarrow>
           sentiment r \<noteq> Bullish)"
proof -
  obtain r where r: "analyze now dp = Inr r"
    using analyze_returns by blast
  show ?thesis
    using r analyze_fields(8) [OF r] by (auto simp: computeSentiment_def)
qed

theorem sentiment_decision_witness:
  "\<exists>r. analyze 1000 dpHotRisky = Inr r \<and> riskLevel (quant r) = High \<and>
        score r = Fin 68 \<and> sentiment r = Neutral"
proof -
  obtain r where r: "analyze 1000 dpHotRisky = Inr r"
    and n: "sentiment r = Neutral \<longleftrightarrow>
           \<not> (riskLevel (quant r) = Critical \<or> nlt (score r) (Fin 35)) \<and>
           \<not> (ngt (score r) (Fin 65) \<and> riskLevel (quant r) \<noteq> High)"
    using sentiment_decision [of 1000 dpHotRisky] by blast
  have rf: "riskFactors (quant r) = [bonding_curve_risk, no_social_presence, no_website]"
    using analyze_fields(1) [OF r] by (simp add: riskList_dpHotRisky)
  have bp: "buyPressure (quant r) = Fin 75"
    using analyze_fields(2) [OF r] by (simp add: buyPressure_dpHotRisky)
  have rl: "riskLevel (quant r) = High"
    using analyze_fields(6) [OF r]
    by (simp add: rf bp computeRiskLevel_def negativeFactors_def criticalFactors_def)
  have v: "volatilityScore (quant r) = Fin 10"
    using analyze_fields(3) [OF r] by (simp add: volatility_dpHotRisky)
  have t: "trendDirection (quant r) = Up"
    using analyze_fields(5) [OF r] by (simp add: trend_dpHotRisky)
  have l: "liquidityDepth (quant r) = Deep"
    using analyze_fields(4) [OF r] by (simp add: liquidity_dpHotRisky)
  have "isIntIn 0 100 (Fin 75)"
    by (simp add: isIntIn_def)
  then have s: "score r = Fin 68"
    using analyze_fields(7) [OF r]
    by (simp add: bp v t l rl computeScore_Fin scoreSpec_def roundR_def)
  show ?thesis
    using r rl s n by (simp add: ngt_def)
qed

subsection \<open>C7: the composite score\<close>

text \<open>
  C7 as stated does not hold for every DataPoint: with no buys and a sell count of \<open>-1\<close>
  the buy pressure is NaN and so is the score, which is then no integer in \<open>[0, 100]\<close>.
\<close>

theorem score_not_a_number:
  "buys24h dpNegSells = Some (Fin 0) \<and> sells24h dpNegSells = Some (Fin (- 1)) \<and>
   map_sum id score (analyze 1000 dpNegSells) = Inr NaN \<and>
   map_sum id (isIntIn 0 100 \<circ> score) (analyze 1000 dpNegSells) = Inr False"
proof -
  obtain r where r: "analyze 1000 dpNegSells = Inr r"
    using analyze_returns by blast
  have "score r = NaN"
    using analyze_fields(2,7) [OF r] by (simp add: buyPressure_dpNegSells computeScore_NaN)
  then show ?thesis
    using r by (simp add: isIntIn_def) (simp add: example_defs)
qed

text \<open>
  C7, amended. For every DataPoint whose buy pressure is a number, the composite score equals
  \<open>clamp(round(50 + (buyPressure - 50) * 0.5 + trend + volatility + risk + liquidity), 0, 100)\<close>
  with the adjustments \<open>+10\<close> for trend up, \<open>-10\<close> for down, \<open>-5\<close> for reversal,
  \<open>-5\<close> for a volatility score above 70, \<open>-20\<close> for critical risk, \<open>-10\<close> for high,
  \<open>+10\<close> for low, \<open>+5\<close> for deep liquidity and \<open>-10\<close> for dry, and is an integer
  in \<open>[0, 100]\<close>; this is so for all DataPoints with non-negative counts. The buy
  pressure is not a number only when \<open>buys = 0\<close> and \<open>sells = -1\<close>, and the score is
  then NaN.
\<close>

theorem score_formula:
  "\<exists>r v. analyze now dp = Inr r \<and> volatilityScore (quant r) = Fin v \<and>
        (case buyPressure (quant r) of
           Fin bp \<Rightarrow>
             score r = Fin (scoreSpec bp v (riskLevel (quant r)) (trendDirection (quant r))
                              (liquidityDepth (quant r)))
             \<and> isIntIn 0 100 (score r)
         | NaN \<Rightarrow>
             score r = NaN \<and> safe (buys24h dp) 0 = 0 \<and> safe (sells24h dp) 0 = - 1
         | PosInf \<Rightarrow> False
         | NegInf \<Rightarrow> False) \<and>
        (0 \<le> safe (buys24h dp) 0 \<and> 0 \<le> safe (sells24h dp) 0 \<longrightarrow>
           isIntIn 0 100 (score r))"
proof -
  obtain r where r: "analyze now dp = Inr r"
    using analyze_returns by blast
  obtain v where v: "volatilityScore (quant r) = Fin v"
    using analyze_fields(3) [OF r] computeVolatilityScore_int [of dp] isIntIn_Fin by metis
  have bp: "buyPressure (quant r) = computeBuyPressure dp"
    using analyze_fields(2) [OF r] .
  have s: "score r = computeScore (buyPressure (quant r)) (Fin v) (riskLevel (quant r))
      (trendDirection (quant r)) (liquidityDepth (quant r))"
    using analyze_fields(7) [OF r] v by simp
  consider "buyPressure (quant r) = NaN"
    | b where "buyPressure (quant r) = Fin b" "isIntIn 0 100 (Fin b)"
    using computeBuyPressure_int [of dp] isIntIn_Fin [of 0 100 "computeBuyPressure dp"] bp
    by metis
  then have c: "case buyPressure (quant r) of
           Fin bp \<Rightarrow>
             score r = Fin (scoreSpec bp v (riskLevel (quant r)) (trendDirection (quant r))
                              (liquidityDepth (quant r)))
             \<and> isIntIn 0 100 (score r)
         | NaN \<Rightarrow>
             score r = NaN \<and> safe (buys24h dp) 0 = 0 \<and> safe (sells24h dp) 0 = - 1
         | PosInf \<Rightarrow> False
         | NegInf \<Rightarrow> False"
  proof cases
    case 1
    then show ?thesis
      using s computeBuyPressure_NaN_iff [of dp] bp by (simp add: computeScore_NaN)
  next
    case 2
    then show ?thesis
      using s by (simp add: computeScore_Fin isIntIn_scoreSpec)
  qed
  have "0 \<le> safe (buys24h dp) 0 \<and> 0 \<le> safe (sells24h dp) 0 \<longrightarrow> isIntIn 0 100 (score r)"
    using c by (cases "buyPressure (quant r)") auto
  then show ?thesis
    using r v c by blast
qed

theorem score_formula_witness:
  "0 \<le> safe (buys24h dpExample) 0 \<and> 0 \<le> safe (sells24h dpExample) 0 \<and>
   (\<exists>r. analyze 1000 dpExample = Inr r \<and> buyPressure (quant r) = Fin 79 \<and>
        volatilityScore (quant r) = Fin 50 \<and> riskLevel (quant r) = Medium \<and>
        trendDirection (quant r) = Up \<and> liquidityDepth (quant r) = Deep \<and>
        score r = Fin 80 \<and> isIntIn 0 100 (score r))"
proof -
  obtain r v where r: "analyze 1000 dpExample = Inr r"
    and v: "volatilityScore (quant r) = Fin v"
    and c: "case buyPressure (quant r) of
           Fin bp \<Rightarrow>
             score r = Fin (scoreSpec bp v (riskLevel (quant r)) (trendDirection (quant r))
                              (liquidityDepth (quant r)))
             \<and> isIntIn 0 100 (score r)
         | NaN \<Rightarrow>
             score r = NaN \<and> safe (buys24h dpExample) 0 = 0 \<and> safe (sells24h dpExample) 0 = - 1
         | PosInf \<Rightarrow> False
         | NegInf \<Rightarrow> False"
    using score_formula [of 1000 dpExample] by blast
  have bp: "buyPressure (quant r) = Fin 79"
    using analyze_fields(2) [OF r] by (simp add: buyPressure_dpExample)
  have rf: "riskFactors (quant r) = [no_website, healthy_distribution, verified_socials,
      organic_volume, growing_holders, strong_community]"
    using analyze_fields(1) [OF r] by (simp add: riskList_dpExample)
  have rl: "riskLevel (quant r) = Medium"
    using analyze_fields(6) [OF r]
    by (simp add: rf bp computeRiskLevel_def negativeFactors_def criticalFactors_def)
  have v50: "v = 50"
    using analyze_fields(3) [OF r] v by (simp add: volatility_dpExample)
  have t: "trendDirection (quant r) = Up"
    using analyze_fields(5) [OF r] by (simp add: trend_dpExample)
  have l: "liquidityDepth (quant r) = Deep"
    using analyze_fields(4) [OF r] by (simp add: liquidity_dpExample)
  have "score r = Fin 80 \<and> isIntIn 0 100 (score r)"
    using c by (simp add: bp v50 rl t l scoreSpec_def roundR_def isIntIn_def)
  then show ?thesis
    using r bp v v50 rl t l by (simp add: isIntIn_def example_defs read_simps)
qed

subsection \<open>C8: buy pressure\<close>




subsection \<open>C9: analyze is total\<close>

text \<open>
  C9 as stated does not hold: the division of the buy pressure is not guarded. With no
  buys and a sell count of \<open>-1\<close> the divisor \<open>buys + sells + 1\<close> is zero, the quotient
  \<open>0 / 0\<close> is NaN, and the result carries NaN as its buy pressure and as its score.
\<close>

theorem division_not_guarded:
  "buys24h dpNegSells = Some (Fin 0) \<and> sells24h dpNegSells = Some (Fin (- 1)) \<and>
   nadd (nadd (Fin (safe (buys24h dpNegSells) 0)) (Fin (safe (sells24h dpNegSells) 0))) (Fin 1)
     = Fin 0 \<and>
   ndiv (Fin (safe (buys24h dpNegSells) 0)) (Fin 0) = NaN \<and>
   map_sum id (\<lambda>r. (buyPressure (quant r), score r)) (analyze 1000 dpNegSells)
     = Inr (NaN, NaN)"
proof -
  obtain r where r: "analyze 1000 dpNegSells = Inr r"
    using analyze_returns by blast
  have b: "safe (buys24h dpNegSells) 0 = 0" and s: "safe (sells24h dpNegSells) 0 = - 1"
    by (simp_all add: example_defs read_simps)
  have "buyPressure (quant r) = NaN" and "score r = NaN"
    using analyze_fields(2,7) [OF r] by (simp_all add: buyPressure_dpNegSells computeScore_NaN)
  then show ?thesis
    using r unfolding b s
    by (simp add: read_simps infOfSign_def) (simp add: example_defs)
qed

text \<open>
  C9, amended. For every DataPoint and every reading of the clock, also when any or all of
  the nullable fields, the top-holder list, the social links, the holding percentages and
  the timestamp are null or absent, \<open>analyze\<close> returns a complete result and does not
  throw. Each numeric field of the snapshot read through \<open>safe\<close> is what \<open>safe\<close> gives,
  which is the default for a null, missing or non-finite value and the value itself for a
  finite double; the rounded top-10 percentage is never NaN. The division by the market
  cap is guarded: a market cap \<open>\<le> 0\<close> gives the volatility score 50 and the volume
  profile dead, and the volatility score is always an integer in \<open>[10, 95]\<close>. The
  division of the buy pressure is not guarded: buy pressure and score are NaN exactly when
  \<open>buys = 0\<close> and \<open>sells = -1\<close>, and integers in \<open>[0, 100]\<close> in every other case.
\<close>

theorem analyze_total:
  "\<exists>r. analyze now dp = Inr r \<and>
        snap_priceUsd (snapshot r) = safe (priceUsd dp) 0 \<and>
        snap_marketCap (snapshot r) = safe (marketCap dp) 0 \<and>
        snap_volume24h (snapshot r) = safe (volume24h dp) 0 \<and>
        snap_liquidity (snapshot r) = safe (liquidity dp) 0 \<and>
        snap_holderCount (snapshot r) = safe (holderCount dp) 0 \<and>
        snap_buys24h (snapshot r) = safe (buys24h dp) 0 \<and>
        snap_sells24h (snapshot r) = safe (sells24h dp) 0 \<and>
        snap_bondingProgress (snapshot r) = safe (bondingProgress dp) 0 \<and>
        (\<forall>n d. unusable n \<longrightarrow> safe n d = d) \<and>
        (\<forall>x d. isDouble x \<longrightarrow> safe (Some (Fin x)) d = x) \<and>
        snap_top10HolderPct (snapshot r) \<noteq> NaN \<and>
        (safe (marketCap dp) 1 \<le> 0 \<longrightarrow>
           volatilityScore (quant r) = Fin 50 \<and> volumeProfile (quant r) = Dead) \<and>
        isIntIn 10 95 (volatilityScore (quant r)) \<and>
        (buyPressure (quant r) = NaN \<longleftrightarrow>
           safe (buys24h dp) 0 = 0 \<and> safe (sells24h dp) 0 = - 1) \<and>
        (score r = NaN \<longleftrightarrow>
           safe (buys24h dp) 0 = 0 \<and> safe (sells24h dp) 0 = - 1) \<and>
        (\<not> (safe (buys24h dp) 0 = 0 \<and> safe (sells24h dp) 0 = - 1) \<longrightarrow>
           isIntIn 0 100 (buyPressure (quant r)) \<and> isIntIn 0 100 (score r))"
proof -
  obtain r where r: "analyze now dp = Inr r"
    using analyze_returns by blast
  note f = analyze_fields [OF r]
  have s: "\<forall>n d. unusable n \<longrightarrow> safe n d = d"
    "\<forall>x d. isDouble x \<longrightarrow> safe (Some (Fin x)) d = x"
    by (simp_all add: safe_unusable safe_double)
  have t: "snap_top10HolderPct (snapshot r) \<noteq> NaN"
    unfolding f(18) using top10_not_NaN by (rule rounded_pct_not_NaN)
  have g: "safe (marketCap dp) 1 \<le> 0 \<longrightarrow>
      volatilityScore (quant r) = Fin 50 \<and> volumeProfile (quant r) = Dead"
    unfolding f(3) f(19) by (simp add: computeVolatilityScore_eq volume_profile_guard)
  have v: "isIntIn 10 95 (volatilityScore (quant r))"
    unfolding f(3) by (rule computeVolatilityScore_int)
  then obtain w where w: "volatilityScore (quant r) = Fin w"
    using isIntIn_Fin by blast
  have b: "buyPressure (quant r) = NaN \<longleftrightarrow>
      safe (buys24h dp) 0 = 0 \<and> safe (sells24h dp) 0 = - 1"
    unfolding f(2) by (rule computeBuyPressure_NaN_iff)
  have i: "buyPressure (quant r) \<noteq> NaN \<longrightarrow>
      isIntIn 0 100 (buyPressure (quant r)) \<and> isIntIn 0 100 (score r)"
  proof
    assume "buyPressure (quant r) \<noteq> NaN"
    then have p: "isIntIn 0 100 (buyPressure (quant r))"
      unfolding f(2) by (rule computeBuyPressure_int)
    then obtain k where k: "buyPressure (quant r) = Fin k" "isIntIn 0 100 (Fin k)"
      using isIntIn_Fin [of 0 100 "buyPressure (quant r)"] by metis
    have "isIntIn 0 100 (score r)"
      using f(7) k w by (simp add: computeScore_Fin isIntIn_scoreSpec)
    with p show "isIntIn 0 100 (buyPressure (quant r)) \<and> isIntIn 0 100 (score r)"
      by simp
  qed
  have n: "score r = NaN \<longleftrightarrow> buyPressure (quant r) = NaN"
    using i f(7) by (auto simp: computeScore_NaN isIntIn_def)
  show ?thesis
    using r f(10-17) s t g v b i n by (simp only: simp_thms) blast
qed

theorem analyze_total_witness:
  "unusable (priceUsd dpNull) \<and> isDouble 0 \<and>
   \<not> (safe (buys24h dpNull) 0 = 0 \<and> safe (sells24h dpNull) 0 = - 1) \<and>
   (\<exists>r. analyze 1000 dpNull = Inr r \<and>
        snap_priceUsd (snapshot r) = 0 \<and> snap_buys24h (snapshot r) = 0 \<and>
        isIntIn 0 100 (buyPressure (quant r)) \<and> isIntIn 0 100 (score r)) \<and>
   safe (buys24h dpNegSells) 0 = 0 \<and> safe (sells24h dpNegSells) 0 = - 1 \<and>
   (\<exists>r. analyze 1000 dpNegSells = Inr r \<and> buyPressure (quant r) = NaN \<and> score r = NaN)"
proof -
  have "unusable (priceUsd dpNull)" and "isDouble 0"
    and "\<not> (safe (buys24h dpNull) 0 = 0 \<and> safe (sells24h dpNull) 0 = - 1)"
    and "safe (priceUsd dpNull) 0 = 0" and "safe (buys24h dpNull) 0 = 0"
    and "safe (buys24h dpNegSells) 0 = 0" and "safe (sells24h dpNegSells) 0 = - 1"
    by (simp_all add: unusable_def isDouble_def example_defs read_simps)
  then show ?thesis
    using analyze_total [of 1000 dpNull] analyze_total [of 1000 dpNegSells]
    by (simp only: simp_thms) metis
qed

subsection \<open>C10: the tags that can occur\<close>



end
